theory Spec2Isabelle
  imports Main "HOL-Library.AList"
begin

section \<open>Data model of \<open>SocketHandler.ts\<close>\<close>

text \<open>
  A connection object (\<open>WebSocket\<close>) is identified by the number it was allocated under:
  \<open>new WebSocketPair()\<close> yields two objects that are distinct from every object created
  before, which the model writes as a counter of the platform.
\<close>

type_synonym ws = nat

datatype status = Pending | Ready | Closed

record SocketSessionInfo =
  audience :: string
  subject :: string
  socketId :: string
  status :: status

text \<open>
  The values handed to \<open>JSON.stringify\<close> and returned by \<open>JSON.parse\<close>. A frame sent
  with \<open>ws.send(JSON.stringify(v))\<close> is recorded as the value \<open>v\<close>, keys in the order the
  object literal of the source lists them.
\<close>

datatype json =
    JNull
  | JBool bool
  | JNum int
  | JStr string
  | JArr "json list"
  | JObj "(string \<times> json) list"

text \<open>
  \<open>BaseMessage\<close>: what the handler reads of a validated client message, its \<open>type\<close> and
  its \<open>messageId\<close>; \<open>payload\<close> is the whole validated object.
\<close>

record BaseMessage =
  msgType :: string
  messageId :: string
  payload :: json

text \<open>
  Values that are instances of \<open>Error\<close>: the class \<open>SocketHandlerError\<close> of the source
  (message and code) and any other \<open>Error\<close> (message). A thrown value is either such an
  instance or something else (\<open>err instanceof Error\<close> is false).
\<close>

datatype js_error = SocketHandlerError string nat | Error string

fun message :: "js_error \<Rightarrow> string" where
  "message (SocketHandlerError m c) = m"
| "message (Error m) = m"

datatype thrown = Err js_error | NonError

text \<open>
  The application's callbacks (message handlers, connect and disconnect hooks) are code of
  the host actor. What they can do to the handler is call its public \<open>send\<close>, and they end
  by returning, by throwing synchronously, or (an \<open>async\<close> callback) by returning a promise
  that rejects. A callback is modelled by the script of these actions; \<open>CallSend m to notTo
  ok failed\<close> calls \<open>send(m, {to, notTo})\<close> and goes on with \<open>ok\<close> when the call returns and
  with \<open>failed\<close> when it throws. A callback runs to its end at the place of the call: the
  interleaving of an \<open>async\<close> callback with later events is outside this model.
\<close>

datatype script =
    Return
  | Throw thrown
  | Reject thrown
  | CallSend json "string list option" "string list option" script script

datatype outcome = Returned | Thrown thrown | Rejected thrown

record SocketHandlerConfig =
  tokenSecret :: string
  clientMessageShape :: "json \<Rightarrow> string + BaseMessage"
  serverMessageShape :: "json \<Rightarrow> string + json"
  messageHandlers :: "string \<Rightarrow> (BaseMessage \<Rightarrow> SocketSessionInfo \<Rightarrow> ws \<Rightarrow> script) option"
  connectHandler :: "(SocketSessionInfo \<Rightarrow> ws \<Rightarrow> script) option"
  disconnectHandler :: "(SocketSessionInfo \<Rightarrow> ws \<Rightarrow> js_error option \<Rightarrow> script) option"

text \<open>
  A schema (\<open>ZodType\<close>) is its \<open>safeParse\<close>: \<open>Inr data\<close> on success, \<open>Inl e\<close> with the error
  rendered as text otherwise.

  What the source takes from outside the repository: the identity of the actor
  (\<open>ctx.id.toString()\<close>), \<open>jwtVerify\<close> of the \<open>jose\<close> library (\<open>Inl\<close> is the error it
  throws on a bad signature, a malformed or an expired token) and \<open>JSON.parse\<close>
  (\<open>None\<close> when it throws). The payload of a verified token is read for its \<open>sub\<close> and
  \<open>aud\<close>, taken as strings, as the source's cast has them.
\<close>

record JWTPayload =
  sub :: string
  aud :: string

record platform =
  ctxId :: string
  jwtVerify :: "string \<Rightarrow> string \<Rightarrow> js_error + JWTPayload"
  JSON_parse :: "string \<Rightarrow> json option"

text \<open>
  Everything the handler does to the outside is appended to a trace, in the order the
  source does it: frames sent, connections closed and accepted, the calls of the
  application's callbacks with their arguments, and the console calls, each recorded by
  its first argument.
\<close>

datatype effect =
    WsSend ws json
  | WsClose ws nat string
  | AcceptWebSocket ws
  | ConsoleLog string
  | ConsoleWarn string
  | ConsoleError string
  | CallHandler BaseMessage SocketSessionInfo ws
  | CallConnect SocketSessionInfo ws
  | CallDisconnect SocketSessionInfo ws "js_error option"

text \<open>
  The private fields \<open>#socketInfo\<close> (a \<open>Map\<close>, iterated in insertion order, hence an
  association list) and \<open>#messageBacklogs\<close>, and the platform's side: the attachment
  serialized on each connection, the allocation counter, the trace.
\<close>

record state =
  socketInfo :: "(ws \<times> SocketSessionInfo) list"
  messageBacklogs :: "string \<Rightarrow> json list option"
  attachments :: "(ws \<times> SocketSessionInfo) list"
  nextSocket :: nat
  trace :: "effect list"

definition emit :: "effect \<Rightarrow> state \<Rightarrow> state" where
  "emit e s = s\<lparr>trace := trace s @ [e]\<rparr>"

section \<open>Operations\<close>

definition updateSocketInfo :: "ws \<Rightarrow> SocketSessionInfo \<Rightarrow> state \<Rightarrow> state" where
  "updateSocketInfo w info s =
     s\<lparr>socketInfo := AList.update w info (socketInfo s),
       attachments := AList.update w info (attachments s)\<rparr>"

text \<open>One round of the loop of \<open>send\<close>, on one entry of the snapshot of the registry.\<close>

definition send_one ::
  "json \<Rightarrow> string list option \<Rightarrow> string list option \<Rightarrow> ws \<times> SocketSessionInfo \<Rightarrow> state \<Rightarrow> state"
where
  "send_one data to notTo entry s =
     (let w = fst entry; info = snd entry in
      if (case to of None \<Rightarrow> False | Some t \<Rightarrow> subject info \<notin> set t) then s
      else if (case notTo of None \<Rightarrow> False | Some n \<Rightarrow> subject info \<in> set n) then s
      else if status info = Pending then
        s\<lparr>messageBacklogs := (messageBacklogs s)(socketId info \<mapsto>
            (case messageBacklogs s (socketId info) of None \<Rightarrow> [] | Some backlog \<Rightarrow> backlog)
              @ [data])\<rparr>
      else if status info = Closed then
        emit (ConsoleError ''Cannot send message to closed socket'')
          (s\<lparr>socketInfo := AList.delete w (socketInfo s)\<rparr>)
      else emit (WsSend w data) s)"

definition send ::
  "SocketHandlerConfig \<Rightarrow> json \<Rightarrow> string list option \<Rightarrow> string list option \<Rightarrow> state
     \<Rightarrow> (js_error + unit) \<times> state"
where
  "send cfg msg to notTo s =
     (case serverMessageShape cfg msg of
        Inl e \<Rightarrow> (Inl (SocketHandlerError (''Invalid server message shape: '' @ e) 500), s)
      | Inr data \<Rightarrow> (Inr (), fold (send_one data to notTo) (socketInfo s) s))"

fun run_script :: "SocketHandlerConfig \<Rightarrow> script \<Rightarrow> state \<Rightarrow> outcome \<times> state" where
  "run_script cfg Return s = (Returned, s)"
| "run_script cfg (Throw t) s = (Thrown t, s)"
| "run_script cfg (Reject t) s = (Rejected t, s)"
| "run_script cfg (CallSend m to notTo ok failed) s =
     (case send cfg m to notTo s of
        (Inr u, s') \<Rightarrow> run_script cfg ok s'
      | (Inl e, s') \<Rightarrow> run_script cfg failed s')"


subsection \<open>The handshake (\<open>#createHono\<close>, \<open>verifySocketToken\<close>)\<close>

text \<open>
  \<open>toLowerCase\<close> on the letters \<open>A\<close> to \<open>Z\<close> (code 65 to 90; the lower-case letter is
  the same code with the bit of value 32 set); the header is only compared with the ASCII
  word \<open>websocket\<close>.
\<close>

definition toLowerCase :: "string \<Rightarrow> string" where
  "toLowerCase str =
     map (\<lambda>c. if 65 \<le> (of_char c :: nat) \<and> (of_char c :: nat) \<le> 90
                then (case c of Char b0 b1 b2 b3 b4 b5 b6 b7 \<Rightarrow> Char b0 b1 b2 b3 b4 True b6 b7)
                else c) str"

definition verifySocketToken ::
  "platform \<Rightarrow> string \<Rightarrow> string \<Rightarrow> string \<Rightarrow> js_error + JWTPayload"
where
  "verifySocketToken p token secret audience' =
     (case jwtVerify p token secret of
        Inl e \<Rightarrow> Inl e
      | Inr result \<Rightarrow>
          if aud result \<noteq> audience' then Inl (Error ''Invalid audience'') else Inr result)"

text \<open>
  The request as the route reads it: the \<open>Upgrade\<close> header and the \<open>token\<close> query
  parameter, each absent or a string. The response of a completed upgrade carries the
  client end of the pair.
\<close>

record request =
  upgradeHeader :: "string option"
  tokenQuery :: "string option"

record response =
  statusCode :: nat
  webSocket :: ws

text \<open>
  The route of \<open>#createHono\<close>. \<open>uuid\<close> is what \<open>crypto.randomUUID()\<close> returns in this
  call. \<open>Inl\<close> is the value the route throws (the router turns it into an error response);
  an empty string is falsy in \<open>!upgradeHeader\<close> and \<open>!token\<close>. The connect hook is called
  without \<open>await\<close>: only a synchronous throw of the hook reaches the route.
\<close>

definition fetch ::
  "SocketHandlerConfig \<Rightarrow> platform \<Rightarrow> request \<Rightarrow> string \<Rightarrow> state \<Rightarrow> (thrown + response) \<times> state"
where
  "fetch cfg p req uuid s =
     (if (case upgradeHeader req of None \<Rightarrow> True
          | Some h \<Rightarrow> h = [] \<or> toLowerCase h \<noteq> ''websocket'')
      then (Inl (Err (SocketHandlerError ''Expected a WebSocket upgrade request'' 400)), s)
      else
        (case tokenQuery req of
           None \<Rightarrow> (Inl (Err (SocketHandlerError ''Missing token'' 400)), s)
         | Some token \<Rightarrow>
             if token = [] then (Inl (Err (SocketHandlerError ''Missing token'' 400)), s)
             else
               (case verifySocketToken p token (tokenSecret cfg) (ctxId p) of
                  Inl e \<Rightarrow> (Inl (Err e), s)
                | Inr tokenInfo \<Rightarrow>
                    (let client = nextSocket s;
                         server = Suc (nextSocket s);
                         s1 = emit (AcceptWebSocket server) (s\<lparr>nextSocket := nextSocket s + 2\<rparr>);
                         info = \<lparr>audience = aud tokenInfo, subject = sub tokenInfo,
                                 socketId = uuid, status = Pending\<rparr>;
                         s2 = updateSocketInfo server info s1;
                         resp = \<lparr>statusCode = 101, webSocket = client\<rparr>
                     in case connectHandler cfg of
                          None \<Rightarrow> (Inr resp, s2)
                        | Some hook \<Rightarrow>
                            (case run_script cfg (hook info server)
                                    (emit (CallConnect info server) s2) of
                               (Thrown t, s3) \<Rightarrow> (Inl t, s3)
                             | (r, s3) \<Rightarrow> (Inr resp, s3))))))"

subsection \<open>Inbound frames (\<open>onMessage\<close>, \<open>#onClientMessage\<close>)\<close>

definition ack :: "string \<Rightarrow> json" where
  "ack mid = JObj [(''type'', JStr ''ack''), (''responseTo'', JStr mid)]"

definition error_reply :: "string \<Rightarrow> json \<Rightarrow> json" where
  "error_reply m responseTo =
     JObj [(''type'', JStr ''error''), (''message'', JStr m), (''responseTo'', responseTo)]"

text \<open>The \<open>catch\<close> block of \<open>#onClientMessage\<close>.\<close>

definition handler_failed :: "BaseMessage \<Rightarrow> ws \<Rightarrow> thrown \<Rightarrow> state \<Rightarrow> state" where
  "handler_failed msg w err s =
     emit (WsSend w (error_reply (case err of Err e \<Rightarrow> message e | NonError \<Rightarrow> ''An error occurred'')
                        (JStr (messageId msg))))
       (emit (ConsoleError ''Error handling message'') s)"

text \<open>
  \<open>await handler(msg, info, ws)\<close>: a synchronous throw and a rejected promise both reach
  the \<open>catch\<close> block.
\<close>

definition onClientMessage ::
  "SocketHandlerConfig \<Rightarrow> BaseMessage \<Rightarrow> ws \<Rightarrow> SocketSessionInfo \<Rightarrow> state \<Rightarrow> state"
where
  "onClientMessage cfg msg w info s =
     (case messageHandlers cfg (msgType msg) of
        None \<Rightarrow>
          emit (WsSend w (ack (messageId msg)))
            (emit (ConsoleWarn ''No handler for message type'') s)
      | Some handler \<Rightarrow>
          (case run_script cfg (handler msg info w) (emit (CallHandler msg info w) s) of
             (Returned, s') \<Rightarrow> emit (WsSend w (ack (messageId msg))) s'
           | (Thrown err, s') \<Rightarrow> handler_failed msg w err s'
           | (Rejected err, s') \<Rightarrow> handler_failed msg w err s'))"

text \<open>
  The first block of \<open>onMessage\<close>, taken when the stored status is \<open>pending\<close>: the record
  is stored again with status \<open>ready\<close>, then each message of the backlog found under the
  session's \<open>socketId\<close> is sent. The entry of \<open>#messageBacklogs\<close> is read, not removed.
\<close>

definition promote :: "ws \<Rightarrow> SocketSessionInfo \<Rightarrow> state \<Rightarrow> state" where
  "promote w info s =
     (let s1 = emit (ConsoleLog ''Socket ready'') (updateSocketInfo w (info\<lparr>status := Ready\<rparr>) s)
      in case messageBacklogs s1 (socketId info) of
           None \<Rightarrow> s1
         | Some backlog \<Rightarrow> fold (\<lambda>msg. emit (WsSend w msg)) backlog s1)"

definition onMessage :: "SocketHandlerConfig \<Rightarrow> platform \<Rightarrow> ws \<Rightarrow> string \<Rightarrow> state \<Rightarrow> state" where
  "onMessage cfg p w frame s =
     (case map_of (socketInfo s) w of
        None \<Rightarrow> emit (ConsoleWarn ''Received message from untracked socket'') s
      | Some info \<Rightarrow>
          (let s1 = (if status info = Pending then promote w info s else s) in
           case JSON_parse p frame of
             None \<Rightarrow>
               emit (WsSend w (error_reply ''Error handling message'' JNull))
                 (emit (ConsoleError ''Error parsing or handling message'') s1)
           | Some asObject \<Rightarrow>
               (case clientMessageShape cfg asObject of
                  Inl e \<Rightarrow>
                    emit (WsSend w (error_reply ''Invalid message format'' JNull))
                      (emit (ConsoleError ''Invalid message'') s1)
                | Inr data \<Rightarrow> onClientMessage cfg data w info s1)))"

subsection \<open>Close and error (\<open>onClose\<close>, \<open>onError\<close>, \<open>#onWebSocketCloseOrError\<close>)\<close>

text \<open>
  The disconnect hook is called without \<open>await\<close> inside an \<open>async\<close> function: when it
  throws synchronously the function ends there and the \<open>delete\<close> after it is not reached.
\<close>

definition onWebSocketCloseOrError ::
  "SocketHandlerConfig \<Rightarrow> ws \<Rightarrow> js_error option \<Rightarrow> state \<Rightarrow> state"
where
  "onWebSocketCloseOrError cfg w error s =
     (case map_of (socketInfo s) w of
        None \<Rightarrow> s\<lparr>socketInfo := AList.delete w (socketInfo s)\<rparr>
      | Some info \<Rightarrow>
          (case disconnectHandler cfg of
             None \<Rightarrow> s\<lparr>socketInfo := AList.delete w (socketInfo s)\<rparr>
           | Some hook \<Rightarrow>
               (case run_script cfg (hook info w error) (emit (CallDisconnect info w error) s) of
                  (Thrown t, s') \<Rightarrow> s'
                | (r, s') \<Rightarrow> s'\<lparr>socketInfo := AList.delete w (socketInfo s')\<rparr>)))"

definition onClose ::
  "SocketHandlerConfig \<Rightarrow> ws \<Rightarrow> nat \<Rightarrow> string \<Rightarrow> bool \<Rightarrow> state \<Rightarrow> state"
where
  "onClose cfg w code reason wasClean s =
     onWebSocketCloseOrError cfg w None (emit (WsClose w code ''Goodbye'') s)"

definition onError :: "SocketHandlerConfig \<Rightarrow> ws \<Rightarrow> thrown \<Rightarrow> state \<Rightarrow> state" where
  "onError cfg w error s =
     onWebSocketCloseOrError cfg w
       (Some (case error of Err e \<Rightarrow> e | NonError \<Rightarrow> Error ''Unknown error''))
       (emit (ConsoleError ''Websocket error'') s)"

subsection \<open>Construction and rehydration (\<open>constructor\<close>)\<close>

text \<open>
  A new instance starts with an empty registry and no backlog, and stores the attachment
  of every connection that \<open>ctx.getWebSockets()\<close> reports, when it has one. The
  platform's side of the state stays as it is. The list of connections is the
  platform's answer and is not constrained here.
\<close>

definition constructor :: "ws list \<Rightarrow> state \<Rightarrow> state" where
  "constructor getWebSockets s =
     s\<lparr>socketInfo :=
         fold (\<lambda>w registry. case map_of (attachments s) w of
                               None \<Rightarrow> registry
                             | Some data \<Rightarrow> AList.update w data registry)
           getWebSockets [],
       messageBacklogs := Map.empty\<rparr>"

definition initial :: state where
  "initial = \<lparr>socketInfo = [], messageBacklogs = Map.empty, attachments = [],
              nextSocket = 0, trace = []\<rparr>"

subsection \<open>The public operations as events\<close>

datatype event =
    Fetch request string
  | Send json "string list option" "string list option"
  | Message ws string
  | Close ws nat string bool
  | SocketError ws thrown
  | Wake "ws list"

fun step :: "SocketHandlerConfig \<Rightarrow> platform \<Rightarrow> event \<Rightarrow> state \<Rightarrow> state" where
  "step cfg p (Fetch req uuid) s = snd (fetch cfg p req uuid s)"
| "step cfg p (Send msg to notTo) s = snd (send cfg msg to notTo s)"
| "step cfg p (Message w frame) s = onMessage cfg p w frame s"
| "step cfg p (Close w code reason wasClean) s = onClose cfg w code reason wasClean s"
| "step cfg p (SocketError w error) s = onError cfg w error s"
| "step cfg p (Wake getWebSockets) s = constructor getWebSockets s"

definition run :: "SocketHandlerConfig \<Rightarrow> platform \<Rightarrow> event list \<Rightarrow> state \<Rightarrow> state" where
  "run cfg p evs s = fold (step cfg p) evs s"


section \<open>Terms of the specification\<close>

text \<open>
  The target set of a delivery, in the specification's words: when \<open>to\<close> is given, the
  sessions whose subject is in \<open>to\<close>; then, when \<open>notTo\<close> is given, those of them whose
  subject is not in \<open>notTo\<close>; with neither, every session.
\<close>

definition targeted :: "string list option \<Rightarrow> string list option \<Rightarrow> string \<Rightarrow> bool" where
  "targeted to notTo subj =
     ((case to of None \<Rightarrow> True | Some t \<Rightarrow> subj \<in> set t) \<and>
      (case notTo of None \<Rightarrow> True | Some n \<Rightarrow> subj \<notin> set n))"

text \<open>The messages queued under a \<open>socketId\<close>, none when the map has no entry.\<close>

definition backlog_of :: "state \<Rightarrow> string \<Rightarrow> json list" where
  "backlog_of s sid = (case messageBacklogs s sid of None \<Rightarrow> [] | Some backlog \<Rightarrow> backlog)"

text \<open>What one delivery adds to the trace for one entry of the registry.\<close>

definition delivery ::
  "json \<Rightarrow> string list option \<Rightarrow> string list option \<Rightarrow> ws \<times> SocketSessionInfo \<Rightarrow> effect list"
where
  "delivery data to notTo entry =
     (if \<not> targeted to notTo (subject (snd entry)) \<or> status (snd entry) = Pending then []
      else if status (snd entry) = Closed
      then [ConsoleError ''Cannot send message to closed socket'']
      else [WsSend (fst entry) data])"

text \<open>How many targeted pending sessions of a registry carry a given \<open>socketId\<close>.\<close>

definition queued ::
  "string list option \<Rightarrow> string list option \<Rightarrow> string \<Rightarrow> (ws \<times> SocketSessionInfo) list \<Rightarrow> nat"
where
  "queued to notTo sid entries =
     length (filter (\<lambda>entry. targeted to notTo (subject (snd entry)) \<and>
                        status (snd entry) = Pending \<and> socketId (snd entry) = sid) entries)"

definition no_closed :: "(ws \<times> SocketSessionInfo) list \<Rightarrow> bool" where
  "no_closed entries = list_all (\<lambda>entry. status (snd entry) \<noteq> Closed) entries"

text \<open>The effects an operation added to the trace.\<close>

definition added :: "state \<Rightarrow> state \<Rightarrow> effect list" where
  "added s s' = drop (length (trace s)) (trace s')"

text \<open>
  The invariant of the states the operations produce: the registry has one record per
  connection, every tracked record is the attachment of its connection, no stored or
  persisted record has status \<open>closed\<close>, and every connection with an attachment was
  allocated before.
\<close>

definition wf_state :: "state \<Rightarrow> bool" where
  "wf_state s =
     (distinct (map fst (socketInfo s)) \<and>
      distinct (map fst (attachments s)) \<and>
      no_closed (socketInfo s) \<and>
      no_closed (attachments s) \<and>
      list_all (\<lambda>entry. map_of (attachments s) (fst entry) = Some (snd entry)) (socketInfo s) \<and>
      list_all (\<lambda>entry. fst entry < nextSocket s) (attachments s))"

text \<open>
  What a delivery, or a callback that only delivers, may change in a state whose registry
  has no \<open>closed\<close> record: it adds frames to the trace and messages to the backlogs of
  pending sessions, and nothing else.
\<close>

fun is_frame :: "effect \<Rightarrow> bool" where
  "is_frame (WsSend w data) = True"
| "is_frame e = False"

definition no_pending :: "string \<Rightarrow> (ws \<times> SocketSessionInfo) list \<Rightarrow> bool" where
  "no_pending sid entries =
     list_all (\<lambda>entry. socketId (snd entry) = sid \<longrightarrow> status (snd entry) \<noteq> Pending) entries"

definition delivers :: "state \<Rightarrow> state \<Rightarrow> bool" where
  "delivers s s' =
     (socketInfo s' = socketInfo s \<and> attachments s' = attachments s \<and>
      nextSocket s' = nextSocket s \<and>
      (\<exists>new. trace s' = trace s @ new \<and> list_all is_frame new) \<and>
      (\<forall>sid. no_pending sid (socketInfo s) \<longrightarrow> messageBacklogs s' sid = messageBacklogs s sid))"

text \<open>
  The only change a stored record goes through: from the record of the handshake to the
  same record with status \<open>ready\<close>.
\<close>

definition promoted :: "SocketSessionInfo \<Rightarrow> SocketSessionInfo \<Rightarrow> bool" where
  "promoted a a' = (a' = a \<or> (status a = Pending \<and> a' = a\<lparr>status := Ready\<rparr>))"

text \<open>The trace has no log of the \<open>closed\<close> branch of \<open>send\<close>.\<close>

definition quiet :: "state \<Rightarrow> bool" where
  "quiet s = (ConsoleError ''Cannot send message to closed socket'' \<notin> set (trace s))"

text \<open>
  The events that leave the backlog map in place and mint no session under a given
  \<open>socketId\<close>: all but a rehydration and a handshake that draws that identifier.
\<close>

fun keeps_id :: "string \<Rightarrow> event \<Rightarrow> bool" where
  "keeps_id sid (Wake sockets) = False"
| "keeps_id sid (Fetch req uuid) = (uuid \<noteq> sid)"
| "keeps_id sid ev = True"

text \<open>
  The events that happen to one instance of the handler: all but a rehydration, which
  constructs a new one.
\<close>

fun same_instance :: "event \<Rightarrow> bool" where
  "same_instance (Wake sockets) = False"
| "same_instance ev = True"

text \<open>A queue that keeps what it held, in front and in order, and may have more behind.\<close>

definition grows :: "string \<Rightarrow> state \<Rightarrow> state \<Rightarrow> bool" where
  "grows sid s s' = (\<exists>later. backlog_of s' sid = backlog_of s sid @ later)"

text \<open>The transitions of the status that the specification allows.\<close>

definition legal_transition :: "status \<Rightarrow> status \<Rightarrow> bool" where
  "legal_transition a b =
     (a = b \<or> (a = Pending \<and> b = Ready) \<or> (a = Pending \<and> b = Closed) \<or> (a = Ready \<and> b = Closed))"

section \<open>A concrete actor\<close>

text \<open>
  The actor \<open>room-1\<close> of the specification's scenarios, secret \<open>s3cret\<close>. The token
  service and \<open>JSON.parse\<close> are given on the tokens and frames the scenarios use: two
  tokens for \<open>alice\<close> (audience \<open>room-1\<close> and \<open>room-2\<close>) and one for \<open>bob\<close>; four
  frames that are JSON text, everything else is not.
\<close>

definition demo_platform :: platform where
  \<open>demo_platform =
     \<lparr>ctxId = ''room-1'',
      jwtVerify = (\<lambda>token secret.
        if secret = ''s3cret'' \<and> token = ''alice.room-1''
        then Inr \<lparr>sub = ''alice'', aud = ''room-1''\<rparr>
        else if secret = ''s3cret'' \<and> token = ''bob.room-1''
        then Inr \<lparr>sub = ''bob'', aud = ''room-1''\<rparr>
        else if secret = ''s3cret'' \<and> token = ''alice.room-2''
        then Inr \<lparr>sub = ''alice'', aud = ''room-2''\<rparr>
        else Inl (Error ''signature verification failed'')),
      JSON_parse = (\<lambda>frame.
        if frame = ''{"type":"echo","messageId":"1"}''
        then Some (JObj [(''type'', JStr ''echo''), (''messageId'', JStr ''1'')])
        else if frame = ''{"type":"echo","messageId":"2"}''
        then Some (JObj [(''type'', JStr ''echo''), (''messageId'', JStr ''2'')])
        else if frame = ''{"messageId":"3"}''
        then Some (JObj [(''messageId'', JStr ''3'')])
        else if frame = ''{"type":"echo","messageId":"4"}''
        then Some (JObj [(''type'', JStr ''echo''), (''messageId'', JStr ''4'')])
        else None)\<rparr>\<close>

definition ping :: json where
  "ping = JObj [(''type'', JStr ''ping'')]"

definition pong :: json where
  "pong = JObj [(''type'', JStr ''pong'')]"

text \<open>
  Client messages are objects with \<open>type\<close> \<open>echo\<close> and a string \<open>messageId\<close>; server
  messages are \<open>ping\<close> and \<open>pong\<close>. The handler of \<open>echo\<close> throws \<open>Error("boom")\<close> on
  the message with id \<open>2\<close> and rejects with a value that is not an \<open>Error\<close> on the
  message with id \<open>4\<close>; on any other it sends \<open>pong\<close> to the sender's subject.
\<close>

definition demo_echo :: "BaseMessage \<Rightarrow> SocketSessionInfo \<Rightarrow> ws \<Rightarrow> script" where
  "demo_echo msg info w =
     (if messageId msg = ''2'' then Throw (Err (Error ''boom''))
      else if messageId msg = ''4'' then Reject NonError
      else CallSend pong (Some [subject info]) None Return (Throw NonError))"

definition demo_config :: SocketHandlerConfig where
  "demo_config =
     \<lparr>tokenSecret = ''s3cret'',
      clientMessageShape = (\<lambda>j.
        case j of
          JObj kvs \<Rightarrow>
            (case map_of kvs ''type'' of
               Some (JStr t) \<Rightarrow>
                 (case map_of kvs ''messageId'' of
                    Some (JStr m) \<Rightarrow>
                      if t = ''echo'' then Inr \<lparr>msgType = t, messageId = m, payload = j\<rparr>
                      else Inl ''Invalid input''
                  | _ \<Rightarrow> Inl ''Invalid input'')
             | _ \<Rightarrow> Inl ''Invalid input'')
        | _ \<Rightarrow> Inl ''Invalid input''),
      serverMessageShape = (\<lambda>j. if j = ping \<or> j = pong then Inr j else Inl ''Invalid input''),
      messageHandlers = [''echo'' \<mapsto> demo_echo],
      connectHandler = Some (\<lambda>info w. Return),
      disconnectHandler = Some (\<lambda>info w error. Return)\<rparr>"

definition upgrade :: "string \<Rightarrow> request" where
  "upgrade token = \<lparr>upgradeHeader = Some ''WebSocket'', tokenQuery = Some token\<rparr>"

text \<open>
  \<open>alice\<close> and \<open>bob\<close> connect (connections 1 and 3), \<open>ping\<close> is sent twice to everybody,
  then \<open>alice\<close>'s first frame arrives.
\<close>

definition connected :: state where
  "connected =
     run demo_config demo_platform
       [Fetch (upgrade ''alice.room-1'') ''id-a'', Fetch (upgrade ''bob.room-1'') ''id-b'',
        Send ping None None, Send ping None None] initial"

text \<open>
  \<open>alice\<close> alone connects, \<open>ping\<close> is sent twice, then the actor hibernates and is
  constructed again with her connection still open.
\<close>

definition queued_twice :: state where
  "queued_twice =
     run demo_config demo_platform
       [Fetch (upgrade ''alice.room-1'') ''id-a'', Send ping None None, Send ping None None]
       initial"

definition hibernated :: state where
  "hibernated = run demo_config demo_platform [Wake [1]] queued_twice"

definition alice_ready :: state where
  \<open>alice_ready =
     run demo_config demo_platform [Message 1 ''{"type":"echo","messageId":"1"}''] connected\<close>

section \<open>The delivery loop\<close>

lemma emit_fields [simp]:
  "socketInfo (emit e s) = socketInfo s"
  "messageBacklogs (emit e s) = messageBacklogs s"
  "attachments (emit e s) = attachments s"
  "nextSocket (emit e s) = nextSocket s"
  "trace (emit e s) = trace s @ [e]"
  by (simp_all add: emit_def)

lemma updateSocketInfo_fields [simp]:
  "socketInfo (updateSocketInfo w i s) = AList.update w i (socketInfo s)"
  "messageBacklogs (updateSocketInfo w i s) = messageBacklogs s"
  "attachments (updateSocketInfo w i s) = AList.update w i (attachments s)"
  "nextSocket (updateSocketInfo w i s) = nextSocket s"
  "trace (updateSocketInfo w i s) = trace s"
  by (simp_all add: updateSocketInfo_def)

lemma send_one_untargeted:
  "\<not> targeted to notTo (subject (snd entry)) \<Longrightarrow> send_one data to notTo entry s = s"
  by (auto simp: send_one_def targeted_def Let_def split: option.splits)

lemma send_one_targeted:
  "targeted to notTo (subject (snd entry)) \<Longrightarrow>
     send_one data to notTo entry s = send_one data None None entry s"
  by (auto simp: send_one_def targeted_def Let_def split: option.splits)

lemma send_one_platform [simp]:
  "attachments (send_one data to notTo entry s) = attachments s"
  "nextSocket (send_one data to notTo entry s) = nextSocket s"
  by (simp_all add: send_one_def Let_def)

lemma send_loop_platform [simp]:
  "attachments (fold (send_one data to notTo) entries s) = attachments s"
  "nextSocket (fold (send_one data to notTo) entries s) = nextSocket s"
  by (induction entries arbitrary: s) simp_all

text \<open>The loop with its two \<open>continue\<close> is the unfiltered loop over the targeted entries.\<close>

lemma send_loop_filter:
  "fold (send_one data to notTo) entries s =
     fold (send_one data None None)
       (filter (\<lambda>entry. targeted to notTo (subject (snd entry))) entries) s"
  by (induction entries arbitrary: s) (simp_all add: send_one_untargeted send_one_targeted)

lemma send_one_trace:
  "trace (send_one data to notTo entry s) = trace s @ delivery data to notTo entry"
  by (cases "targeted to notTo (subject (snd entry))")
     (simp_all add: send_one_untargeted send_one_targeted delivery_def,
      simp add: send_one_def Let_def)

lemma send_loop_trace:
  "trace (fold (send_one data to notTo) entries s) =
     trace s @ concat (map (delivery data to notTo) entries)"
  by (induction entries arbitrary: s) (simp_all add: send_one_trace)

lemma send_one_registry_gen:
  "socketInfo (send_one data to notTo entry s) =
     (if targeted to notTo (subject (snd entry)) \<and> status (snd entry) = Closed
      then AList.delete (fst entry) (socketInfo s) else socketInfo s)"
  by (cases "targeted to notTo (subject (snd entry))")
     (simp_all add: send_one_untargeted send_one_targeted, simp add: send_one_def Let_def)

lemma send_loop_registry_gen:
  "socketInfo (fold (send_one data to notTo) entries s) =
     filter (\<lambda>e. \<forall>entry \<in> set entries.
                targeted to notTo (subject (snd entry)) \<and> status (snd entry) = Closed
                  \<longrightarrow> fst entry \<noteq> fst e)
       (socketInfo s)"
proof (induction entries arbitrary: s)
  case Nil
  then show ?case by simp
next
  case (Cons entry entries)
  show ?case
    by (simp add: Cons.IH send_one_registry_gen AList.delete_eq) (auto intro: filter_cong)
qed

lemma send_loop_registry:
  "no_closed entries \<Longrightarrow> socketInfo (fold (send_one data to notTo) entries s) = socketInfo s"
  by (simp add: send_loop_registry_gen no_closed_def list_all_iff)

lemma send_one_backlog:
  "messageBacklogs (send_one data to notTo entry s) sid =
     (if targeted to notTo (subject (snd entry)) \<and> status (snd entry) = Pending \<and>
         socketId (snd entry) = sid
      then Some (backlog_of s sid @ [data]) else messageBacklogs s sid)"
  by (cases "targeted to notTo (subject (snd entry))")
     (simp_all add: send_one_untargeted send_one_targeted,
      simp add: send_one_def Let_def backlog_of_def)

text \<open>
  A delivery appends the message to a backlog once for each targeted pending session that
  carries the \<open>socketId\<close>, after what was queued before, and touches no other backlog.
\<close>

lemma send_loop_backlog:
  "messageBacklogs (fold (send_one data to notTo) entries s) sid =
     (if queued to notTo sid entries = 0 then messageBacklogs s sid
      else Some (backlog_of s sid @ replicate (queued to notTo sid entries) data))"
proof (induction entries arbitrary: s)
  case Nil
  then show ?case by (simp add: queued_def)
next
  case (Cons entry entries)
  let ?s1 = "send_one data to notTo entry s"
  show ?case
  proof (cases "targeted to notTo (subject (snd entry)) \<and> status (snd entry) = Pending \<and>
         socketId (snd entry) = sid")
    case True
    then have b: "messageBacklogs ?s1 sid = Some (backlog_of s sid @ [data])"
      by (simp add: send_one_backlog)
    then have b': "backlog_of ?s1 sid = backlog_of s sid @ [data]"
      by (simp add: backlog_of_def)
    have q: "queued to notTo sid (entry # entries) = Suc (queued to notTo sid entries)"
      using True by (simp add: queued_def)
    show ?thesis
      using Cons.IH [of ?s1] b b' q by (simp add: replicate_app_Cons_same)
  next
    case False
    then have b: "messageBacklogs ?s1 sid = messageBacklogs s sid"
      by (auto simp add: send_one_backlog)
    then have b': "backlog_of ?s1 sid = backlog_of s sid"
      by (simp add: backlog_of_def)
    have q: "queued to notTo sid (entry # entries) = queued to notTo sid entries"
      using False by (auto simp add: queued_def)
    show ?thesis
      using Cons.IH [of ?s1] b b' q by simp
  qed
qed

lemma filter_eq_single: "distinct xs \<Longrightarrow> x \<in> set xs \<Longrightarrow> filter (\<lambda>e. e = x) xs = [x]"
  by (induction xs) (auto simp: filter_empty_conv)

lemma queued_unshared:
  assumes "distinct (map fst entries)" and "(w, info) \<in> set entries"
    and "status info = Pending"
    and "\<forall>entry \<in> set entries. socketId (snd entry) = socketId info \<longrightarrow> entry = (w, info)"
  shows "queued to notTo (socketId info) entries
           = (if targeted to notTo (subject info) then 1 else 0)"
proof -
  let ?P = "\<lambda>entry. targeted to notTo (subject (snd entry)) \<and>
                        status (snd entry) = Pending \<and> socketId (snd entry) = socketId info"
  have d: "distinct entries"
    using assms(1) by (rule distinct_map [THEN iffD1, THEN conjunct1])
  have "filter ?P entries = (if targeted to notTo (subject info) then [(w, info)] else [])"
  proof (cases "targeted to notTo (subject info)")
    case True
    have "filter ?P entries = filter (\<lambda>entry. entry = (w, info)) entries"
      using assms(3,4) True by (intro filter_cong) auto
    also have "\<dots> = [(w, info)]"
      using d assms(2) by (rule filter_eq_single)
    finally show ?thesis using True by simp
  next
    case False
    have "filter ?P entries = []"
      using assms(4) False by (auto simp: filter_empty_conv)
    then show ?thesis using False by simp
  qed
  then show ?thesis by (simp add: queued_def)
qed


section \<open>The concrete actor, evaluated\<close>

lemmas demo_defs =
  demo_config_def demo_echo_def demo_platform_def upgrade_def ping_def pong_def initial_def run_def
  fetch_def verifySocketToken_def toLowerCase_def send_def send_one_def onMessage_def
  promote_def onClientMessage_def handler_failed_def ack_def error_reply_def
  onClose_def onError_def onWebSocketCloseOrError_def constructor_def
  emit_def updateSocketInfo_def Let_def

lemma connected_registry:
  "socketInfo connected =
     [(1, \<lparr>audience = ''room-1'', subject = ''alice'', socketId = ''id-a'', status = Pending\<rparr>),
      (3, \<lparr>audience = ''room-1'', subject = ''bob'', socketId = ''id-b'', status = Pending\<rparr>)]"
  by (simp add: connected_def demo_defs)

lemma connected_backlogs:
  "messageBacklogs connected ''id-a'' = Some [ping, ping]"
  "messageBacklogs connected ''id-b'' = Some [ping, ping]"
  by (simp_all add: connected_def demo_defs)

lemma connected_platform:
  "attachments connected = socketInfo connected" "nextSocket connected = 4"
  by (simp_all add: connected_def demo_defs)

lemma alice_ready_registry:
  "socketInfo alice_ready =
     [(1, \<lparr>audience = ''room-1'', subject = ''alice'', socketId = ''id-a'', status = Ready\<rparr>),
      (3, \<lparr>audience = ''room-1'', subject = ''bob'', socketId = ''id-b'', status = Pending\<rparr>)]"
  by (simp add: alice_ready_def connected_def demo_defs)

lemma alice_ready_backlogs:
  "messageBacklogs alice_ready ''id-a'' = Some [ping, ping]"
  "messageBacklogs alice_ready ''id-b'' = Some [ping, ping]"
  by (simp_all add: alice_ready_def connected_def demo_defs)

lemma alice_ready_platform:
  "attachments alice_ready = socketInfo alice_ready" "nextSocket alice_ready = 4"
  by (simp_all add: alice_ready_def connected_def demo_defs)


section \<open>Outbound validation\<close>

text \<open>
  C7. A message that fails the server message schema makes \<open>send\<close> throw a
  \<open>SocketHandlerError\<close> (code 500) before the loop over the sessions starts: the call
  returns the error and leaves the whole state as it was, so no frame is sent, no backlog
  entry is created or extended and the registry is unchanged.
\<close>

theorem send_invalid_message_throws_before_fan_out:
  assumes "serverMessageShape cfg msg = Inl e"
  shows "fst (send cfg msg to notTo s)
           = Inl (SocketHandlerError (''Invalid server message shape: '' @ e) 500)
       \<and> snd (send cfg msg to notTo s) = s"
  using assms by (simp add: send_def)

theorem send_invalid_message_throws_before_fan_out_witness:
  "serverMessageShape demo_config JNull = Inl ''Invalid input''
   \<and> fst (send demo_config JNull None None connected)
       = Inl (SocketHandlerError ''Invalid server message shape: Invalid input'' 500)
   \<and> snd (send demo_config JNull None None connected) = connected
   \<and> socketInfo connected \<noteq> []"
proof -
  have invalid: "serverMessageShape demo_config JNull = Inl ''Invalid input''"
    by (simp add: demo_config_def ping_def pong_def)
  show ?thesis
    using send_invalid_message_throws_before_fan_out [OF invalid, of None None connected] invalid
    by (simp add: connected_registry)
qed

section \<open>Filtered delivery\<close>

lemma send_valid:
  "serverMessageShape cfg msg = Inr data \<Longrightarrow>
     send cfg msg to notTo s = (Inr (), fold (send_one data to notTo) (socketInfo s) s)"
  by (simp add: send_def)

lemma added_send:
  "serverMessageShape cfg msg = Inr data \<Longrightarrow>
     added s (snd (send cfg msg to notTo s))
       = concat (map (delivery data to notTo) (socketInfo s))"
  by (simp add: send_valid added_def send_loop_trace)

lemma ready_frame_iff:
  assumes "distinct (map fst entries)" and "(w, info) \<in> set entries"
    and "status info = Ready"
  shows "WsSend w data \<in> set (concat (map (delivery data to notTo) entries))
           \<longleftrightarrow> targeted to notTo (subject info)"
proof
  assume "WsSend w data \<in> set (concat (map (delivery data to notTo) entries))"
  then obtain entry where e: "entry \<in> set entries" "WsSend w data \<in> set (delivery data to notTo entry)"
    by auto
  then have "fst entry = w" and t: "targeted to notTo (subject (snd entry))"
    by (auto simp: delivery_def split: if_splits)
  then have "entry = (w, info)"
    using assms(1,2) e(1) by (metis eq_key_imp_eq_value prod.collapse)
  then show "targeted to notTo (subject info)"
    using t by simp
next
  assume "targeted to notTo (subject info)"
  then have "WsSend w data \<in> set (delivery data to notTo (w, info))"
    using assms(3) by (simp add: delivery_def)
  then show "WsSend w data \<in> set (concat (map (delivery data to notTo) entries))"
    using assms(2) by auto
qed

lemma closed_purged_iff:
  assumes "distinct (map fst entries)" and "(w, info) \<in> set entries"
    and "status info = Closed"
  shows "w \<notin> fst ` set (filter (\<lambda>e. \<forall>entry \<in> set entries.
                targeted to notTo (subject (snd entry)) \<and> status (snd entry) = Closed
                  \<longrightarrow> fst entry \<noteq> fst e) entries)
           \<longleftrightarrow> targeted to notTo (subject info)"
proof
  assume gone: "w \<notin> fst ` set (filter (\<lambda>e. \<forall>entry \<in> set entries.
                targeted to notTo (subject (snd entry)) \<and> status (snd entry) = Closed
                  \<longrightarrow> fst entry \<noteq> fst e) entries)"
  have "\<exists>entry \<in> set entries. targeted to notTo (subject (snd entry)) \<and> fst entry = w"
    using gone assms(2) by force
  then obtain entry where e: "entry \<in> set entries" "targeted to notTo (subject (snd entry))"
      "fst entry = w"
    by blast
  then have "entry = (w, info)"
    using assms(1,2) by (metis eq_key_imp_eq_value prod.collapse)
  then show "targeted to notTo (subject info)"
    using e(2) by simp
next
  assume "targeted to notTo (subject info)"
  then show "w \<notin> fst ` set (filter (\<lambda>e. \<forall>entry \<in> set entries.
                targeted to notTo (subject (snd entry)) \<and> status (snd entry) = Closed
                  \<longrightarrow> fst entry \<noteq> fst e) entries)"
    using assms(2,3) by force
qed

text \<open>
  C4. \<open>send(msg, {to, notTo})\<close> with a valid message acts on a session of the registry
  exactly when the session is targeted: its subject is in \<open>to\<close> when \<open>to\<close> is given, and
  not in \<open>notTo\<close> when \<open>notTo\<close> is given. The call is the unfiltered delivery to the
  targeted entries of the registry; a \<open>ready\<close> session is sent the frame, a \<open>pending\<close>
  session (whose \<open>socketId\<close> no other session carries) gets it appended to its backlog,
  a record with status \<open>closed\<close> is removed, each if and only if the session is targeted.
  With neither filter every session is targeted, with both the targeted subjects are the
  set of \<open>to\<close> minus the set of \<open>notTo\<close>.
\<close>

theorem send_targets_filtered_sessions:
  assumes valid: "serverMessageShape cfg msg = Inr data"
    and keys: "distinct (map fst (socketInfo s))"
    and tracked: "(w, info) \<in> set (socketInfo s)"
  shows "send cfg msg to notTo s
           = (Inr (), fold (send_one data None None)
                        (filter (\<lambda>entry. targeted to notTo (subject (snd entry))) (socketInfo s)) s)
       \<and> (status info = Ready \<longrightarrow>
            (WsSend w data \<in> set (added s (snd (send cfg msg to notTo s)))
               \<longleftrightarrow> targeted to notTo (subject info)))
       \<and> (status info = Pending \<and>
            (\<forall>entry \<in> set (socketInfo s). socketId (snd entry) = socketId info \<longrightarrow> entry = (w, info))
            \<longrightarrow> messageBacklogs (snd (send cfg msg to notTo s)) (socketId info)
                  = (if targeted to notTo (subject info)
                     then Some (backlog_of s (socketId info) @ [data])
                     else messageBacklogs s (socketId info)))
       \<and> (status info = Closed \<longrightarrow>
            (w \<notin> fst ` set (socketInfo (snd (send cfg msg to notTo s)))
               \<longleftrightarrow> targeted to notTo (subject info)))
       \<and> targeted None None (subject info)
       \<and> (\<forall>t n. targeted (Some t) (Some n) (subject info) \<longleftrightarrow> subject info \<in> set t - set n)"
proof (intro conjI impI allI)
  show "send cfg msg to notTo s
           = (Inr (), fold (send_one data None None)
                        (filter (\<lambda>entry. targeted to notTo (subject (snd entry))) (socketInfo s)) s)"
    using valid by (simp add: send_valid send_loop_filter [symmetric])
next
  assume r: "status info = Ready"
  show "WsSend w data \<in> set (added s (snd (send cfg msg to notTo s)))
               \<longleftrightarrow> targeted to notTo (subject info)"
    using ready_frame_iff [OF keys tracked r] by (simp only: added_send [OF valid])
next
  assume p: "status info = Pending \<and>
            (\<forall>entry \<in> set (socketInfo s). socketId (snd entry) = socketId info \<longrightarrow> entry = (w, info))"
  have "queued to notTo (socketId info) (socketInfo s)
          = (if targeted to notTo (subject info) then 1 else 0)"
    using keys tracked p by (intro queued_unshared) blast+
  then show "messageBacklogs (snd (send cfg msg to notTo s)) (socketId info)
                  = (if targeted to notTo (subject info)
                     then Some (backlog_of s (socketId info) @ [data])
                     else messageBacklogs s (socketId info))"
    using valid by (simp add: send_valid send_loop_backlog)
next
  assume "status info = Closed"
  then show "w \<notin> fst ` set (socketInfo (snd (send cfg msg to notTo s)))
               \<longleftrightarrow> targeted to notTo (subject info)"
    using valid keys tracked
    by (simp only: send_valid snd_conv send_loop_registry_gen closed_purged_iff)
next
  show "targeted None None (subject info)"
    by (simp add: targeted_def)
next
  fix t n
  show "targeted (Some t) (Some n) (subject info) \<longleftrightarrow> subject info \<in> set t - set n"
    by (simp add: targeted_def)
qed


theorem send_targets_filtered_sessions_witness:
  "serverMessageShape demo_config ping = Inr ping
   \<and> distinct (map fst (socketInfo alice_ready))
   \<and> (1, \<lparr>audience = ''room-1'', subject = ''alice'', socketId = ''id-a'', status = Ready\<rparr>)
        \<in> set (socketInfo alice_ready)
   \<and> WsSend 1 ping \<in> set (added alice_ready
        (snd (send demo_config ping (Some [''alice'', ''bob'']) (Some [''bob'']) alice_ready)))
   \<and> (3, \<lparr>audience = ''room-1'', subject = ''bob'', socketId = ''id-b'', status = Pending\<rparr>)
        \<in> set (socketInfo alice_ready)
   \<and> messageBacklogs
        (snd (send demo_config ping (Some [''alice'', ''bob'']) (Some [''bob'']) alice_ready)) ''id-b''
       = Some [ping, ping]
   \<and> messageBacklogs (snd (send demo_config ping (Some [''bob'']) None alice_ready)) ''id-b''
       = Some [ping, ping, ping]
   \<and> 1 \<notin> fst ` set (socketInfo (snd (send demo_config ping None (Some [''bob''])
        (alice_ready\<lparr>socketInfo :=
           [(1, \<lparr>audience = ''room-1'', subject = ''alice'', socketId = ''id-a'',
                 status = Closed\<rparr>)]\<rparr>))))"
proof -
  let ?a = "\<lparr>audience = ''room-1'', subject = ''alice'', socketId = ''id-a'', status = Ready\<rparr>"
  let ?b = "\<lparr>audience = ''room-1'', subject = ''bob'', socketId = ''id-b'', status = Pending\<rparr>"
  let ?c = "\<lparr>audience = ''room-1'', subject = ''alice'', socketId = ''id-a'', status = Closed\<rparr>"
  let ?stale = "alice_ready\<lparr>socketInfo := [(1, ?c)]\<rparr>"
  have valid: "serverMessageShape demo_config ping = Inr ping"
    by (simp add: demo_config_def)
  have keys: "distinct (map fst (socketInfo alice_ready))"
    by (simp add: alice_ready_registry)
  have a: "(1, ?a) \<in> set (socketInfo alice_ready)"
    by (simp add: alice_ready_registry)
  have b: "(3, ?b) \<in> set (socketInfo alice_ready)"
    by (simp add: alice_ready_registry)
  have keys': "distinct (map fst (socketInfo ?stale))" and c: "(1, ?c) \<in> set (socketInfo ?stale)"
    by simp_all
  have bl: "backlog_of alice_ready ''id-b'' = [ping, ping]"
    by (simp add: backlog_of_def alice_ready_backlogs)
  note ready = send_targets_filtered_sessions
    [OF valid keys a, of "Some [''alice'', ''bob'']" "Some [''bob'']",
     THEN conjunct2, THEN conjunct1]
  note pending_out = send_targets_filtered_sessions
    [OF valid keys b, of "Some [''alice'', ''bob'']" "Some [''bob'']",
     THEN conjunct2, THEN conjunct2, THEN conjunct1]
  note pending_in = send_targets_filtered_sessions
    [OF valid keys b, of "Some [''bob'']" None, THEN conjunct2, THEN conjunct2, THEN conjunct1]
  note closed = send_targets_filtered_sessions
    [OF valid keys' c, of None "Some [''bob'']",
     THEN conjunct2, THEN conjunct2, THEN conjunct2, THEN conjunct1]
  show ?thesis
    using valid keys a b ready pending_out pending_in closed
    by (simp add: targeted_def alice_ready_registry alice_ready_backlogs bl)
qed


section \<open>Deliveries and callbacks leave the sessions alone\<close>

lemma delivers_refl: "delivers s s"
  by (simp add: delivers_def)

lemma delivers_trans: "delivers s s' \<Longrightarrow> delivers s' s'' \<Longrightarrow> delivers s s''"
  by (auto simp: delivers_def)

lemma delivery_frames:
  "status (snd entry) \<noteq> Closed \<Longrightarrow> list_all is_frame (delivery data to notTo entry)"
  by (simp add: delivery_def)

lemma deliveries_frames:
  "no_closed entries \<Longrightarrow> list_all is_frame (concat (map (delivery data to notTo) entries))"
  by (induction entries) (simp_all add: no_closed_def delivery_frames)

lemma queued_no_pending: "no_pending sid entries \<Longrightarrow> queued to notTo sid entries = 0"
  by (auto simp: queued_def no_pending_def list_all_iff filter_empty_conv)

lemma send_delivers:
  assumes "no_closed (socketInfo s)"
  shows "delivers s (snd (send cfg msg to notTo s))"
proof (cases "serverMessageShape cfg msg")
  case (Inl e)
  then show ?thesis by (simp add: send_def delivers_refl)
next
  case (Inr data)
  then show ?thesis
    using assms
    by (simp add: send_valid delivers_def send_loop_registry send_loop_trace deliveries_frames
        send_loop_backlog queued_no_pending)
qed

lemma run_script_delivers:
  "no_closed (socketInfo s) \<Longrightarrow> delivers s (snd (run_script cfg sc s))"
proof (induction sc arbitrary: s)
  case (CallSend m to notTo ok failed)
  let ?s1 = "snd (send cfg m to notTo s)"
  have d: "delivers s ?s1"
    using CallSend.prems by (rule send_delivers)
  then have nc: "no_closed (socketInfo ?s1)"
    using CallSend.prems by (simp add: delivers_def)
  show ?case
  proof (cases "fst (send cfg m to notTo s)")
    case (Inl e)
    then have "run_script cfg (CallSend m to notTo ok failed) s = run_script cfg failed ?s1"
      by (cases "send cfg m to notTo s") simp
    then show ?thesis
      using delivers_trans [OF d CallSend.IH(2) [OF nc]] by simp
  next
    case (Inr u)
    then have "run_script cfg (CallSend m to notTo ok failed) s = run_script cfg ok ?s1"
      by (cases "send cfg m to notTo s") simp
    then show ?thesis
      using delivers_trans [OF d CallSend.IH(1) [OF nc]] by simp
  qed
qed (simp_all add: delivers_refl)

lemma delivers_wf: "wf_state s \<Longrightarrow> delivers s s' \<Longrightarrow> wf_state s'"
  by (clarsimp simp: wf_state_def delivers_def)

section \<open>The invariant\<close>

lemma wf_state_iff:
  "wf_state s \<longleftrightarrow>
     distinct (map fst (socketInfo s)) \<and> distinct (map fst (attachments s)) \<and>
     (\<forall>w i. map_of (socketInfo s) w = Some i \<longrightarrow> map_of (attachments s) w = Some i) \<and>
     (\<forall>w i. map_of (attachments s) w = Some i \<longrightarrow> status i \<noteq> Closed \<and> w < nextSocket s)"
proof (cases "distinct (map fst (socketInfo s)) \<and> distinct (map fst (attachments s))")
  case True
  then show ?thesis
    unfolding wf_state_def no_closed_def list_all_iff
    apply simp
    apply (rule iffI)
     apply force
    apply force
    done
next
  case False
  then show ?thesis
    unfolding wf_state_def by blast
qed

lemma wf_no_closed: "wf_state s \<Longrightarrow> no_closed (socketInfo s)"
  by (simp add: wf_state_def)

lemma wf_initial: "wf_state initial"
  by (simp add: wf_state_def initial_def no_closed_def)

lemma wf_tracked:
  assumes "wf_state s" and "map_of (socketInfo s) w = Some i"
  shows "map_of (attachments s) w = Some i" and "status i \<noteq> Closed" and "w < nextSocket s"
proof -
  show a: "map_of (attachments s) w = Some i"
    using assms wf_state_iff [of s] by blast
  show "status i \<noteq> Closed" and "w < nextSocket s"
    using assms(1) a wf_state_iff [of s] by blast+
qed


lemma wf_state_cong:
  "socketInfo s' = socketInfo s \<Longrightarrow> attachments s' = attachments s \<Longrightarrow>
     nextSocket s' = nextSocket s \<Longrightarrow> wf_state s' = wf_state s"
  by (simp only: wf_state_def)

lemma wf_emit [simp]: "wf_state (emit e s) = wf_state s"
  by (rule wf_state_cong) simp_all

lemma wf_allocate: "wf_state s \<Longrightarrow> nextSocket s \<le> n \<Longrightarrow> wf_state (s\<lparr>nextSocket := n\<rparr>)"
  by (auto simp: wf_state_def list_all_iff)

lemma wf_update:
  assumes "wf_state s" and "status i \<noteq> Closed" and "w < nextSocket s"
  shows "wf_state (updateSocketInfo w i s)"
  using assms unfolding wf_state_iff
  by (simp add: distinct_update update_conv' del: map_of_eq_Some_iff)

lemma wf_delete: "wf_state s \<Longrightarrow> wf_state (s\<lparr>socketInfo := AList.delete w (socketInfo s)\<rparr>)"
  unfolding wf_state_iff by (simp add: distinct_delete delete_conv' del: map_of_eq_Some_iff)

lemma flush_fields [simp]:
  "socketInfo (fold (\<lambda>msg. emit (WsSend w msg)) backlog s) = socketInfo s"
  "messageBacklogs (fold (\<lambda>msg. emit (WsSend w msg)) backlog s) = messageBacklogs s"
  "attachments (fold (\<lambda>msg. emit (WsSend w msg)) backlog s) = attachments s"
  "nextSocket (fold (\<lambda>msg. emit (WsSend w msg)) backlog s) = nextSocket s"
  "trace (fold (\<lambda>msg. emit (WsSend w msg)) backlog s) = trace s @ map (WsSend w) backlog"
  by (induction backlog arbitrary: s) simp_all

lemma promote_fields [simp]:
  "socketInfo (promote w info s) = AList.update w (info\<lparr>status := Ready\<rparr>) (socketInfo s)"
  "messageBacklogs (promote w info s) = messageBacklogs s"
  "attachments (promote w info s) = AList.update w (info\<lparr>status := Ready\<rparr>) (attachments s)"
  "nextSocket (promote w info s) = nextSocket s"
  "trace (promote w info s)
     = trace s @ ConsoleLog ''Socket ready'' # map (WsSend w) (backlog_of s (socketId info))"
  by (simp_all add: promote_def Let_def backlog_of_def split: option.split)

lemma wf_promote:
  assumes "wf_state s" and "map_of (socketInfo s) w = Some info"
  shows "wf_state (promote w info s)"
proof -
  have "wf_state (updateSocketInfo w (info\<lparr>status := Ready\<rparr>) s)"
    using assms wf_tracked(3) [OF assms] by (intro wf_update) simp_all
  then show ?thesis
    by (simp add: wf_state_cong [of "promote w info s" "updateSocketInfo w (info\<lparr>status := Ready\<rparr>) s"])
qed

lemma wf_run_script: "wf_state s \<Longrightarrow> wf_state (snd (run_script cfg sc s))"
  by (blast intro: delivers_wf run_script_delivers wf_no_closed)

lemma wf_run_script_eq:
  "run_script cfg sc s = (r, s') \<Longrightarrow> wf_state s \<Longrightarrow> wf_state s'"
  "run_script cfg sc (emit e s) = (r, s') \<Longrightarrow> wf_state s \<Longrightarrow> wf_state s'"
  using wf_run_script [of s cfg sc] wf_run_script [of "emit e s" cfg sc] by simp_all

lemma wf_send: "wf_state s \<Longrightarrow> wf_state (snd (send cfg msg to notTo s))"
  by (blast intro: delivers_wf send_delivers wf_no_closed)

lemma wf_fetch: "wf_state s \<Longrightarrow> wf_state (snd (fetch cfg p req uuid s))"
proof -
  assume wf: "wf_state s"
  let ?n = "nextSocket s"
  have accepted: "wf_state (updateSocketInfo (Suc ?n) i
                    (emit (AcceptWebSocket (Suc ?n)) (s\<lparr>nextSocket := Suc (Suc ?n)\<rparr>)))"
    if "status i = Pending" for i
    using that wf by (intro wf_update) (simp_all add: wf_allocate)
  show ?thesis
    using wf
    by (auto simp: fetch_def Let_def
             split: option.split sum.split prod.split outcome.split
             dest!: wf_run_script_eq(2) intro!: accepted)
qed

lemma wf_onClientMessage: "wf_state s \<Longrightarrow> wf_state (onClientMessage cfg msg w info s)"
  by (auto simp: onClientMessage_def handler_failed_def
           split: option.split prod.split outcome.split
           dest: wf_run_script_eq(2))

lemma wf_onMessage: "wf_state s \<Longrightarrow> wf_state (onMessage cfg p w frame s)"
  by (auto simp: onMessage_def Let_def wf_promote wf_onClientMessage
           split: option.split sum.split)

lemma wf_onWebSocketCloseOrError:
  "wf_state s \<Longrightarrow> wf_state (onWebSocketCloseOrError cfg w error s)"
  by (auto simp: onWebSocketCloseOrError_def wf_delete
           split: option.split prod.split outcome.split
           dest: wf_run_script_eq(2))

lemma constructor_registry:
  "map_of (fold (\<lambda>w registry. case map_of att w of
                               None \<Rightarrow> registry
                             | Some data \<Rightarrow> AList.update w data registry) sockets acc) w
     = (if w \<in> set sockets \<and> map_of att w \<noteq> None then map_of att w else map_of acc w)"
  by (induction sockets arbitrary: acc) (auto simp: update_conv' split: option.split)

lemma constructor_distinct:
  "distinct (map fst acc) \<Longrightarrow>
     distinct (map fst (fold (\<lambda>w registry. case map_of att w of
                               None \<Rightarrow> registry
                             | Some data \<Rightarrow> AList.update w data registry) sockets acc))"
  by (induction sockets arbitrary: acc) (auto simp: distinct_update split: option.split)

lemma wf_constructor: "wf_state s \<Longrightarrow> wf_state (constructor sockets s)"
  unfolding wf_state_iff
  by (simp add: constructor_def constructor_registry constructor_distinct del: map_of_eq_Some_iff)

lemma wf_step: "wf_state s \<Longrightarrow> wf_state (step cfg p ev s)"
  by (cases ev)
     (simp_all add: wf_fetch wf_send wf_onMessage wf_constructor onClose_def onError_def
        wf_onWebSocketCloseOrError)

lemma wf_run: "wf_state s \<Longrightarrow> wf_state (run cfg p evs s)"
  unfolding run_def by (induction evs arbitrary: s) (simp_all add: wf_step)


section \<open>The status of a session over a run\<close>

lemma send_platform [simp]:
  "attachments (snd (send cfg msg to notTo s)) = attachments s"
  "nextSocket (snd (send cfg msg to notTo s)) = nextSocket s"
  by (simp_all add: send_def split: sum.split)

lemma send_platform_eq:
  "send cfg msg to notTo s = (r, s') \<Longrightarrow>
     attachments s' = attachments s \<and> nextSocket s' = nextSocket s"
  using send_platform [of cfg msg to notTo s] by simp

lemma run_script_platform_eq:
  "run_script cfg sc s = (r, s') \<Longrightarrow>
     attachments s' = attachments s \<and> nextSocket s' = nextSocket s"
  by (induction sc arbitrary: s)
     (auto split: prod.splits sum.splits dest: send_platform_eq)

lemma run_script_platform [simp]:
  "attachments (snd (run_script cfg sc s)) = attachments s"
  "nextSocket (snd (run_script cfg sc s)) = nextSocket s"
  using run_script_platform_eq [of cfg sc s] by (simp_all add: prod_eq_iff)

lemma onClientMessage_attachments [simp]:
  "attachments (onClientMessage cfg msg w info s) = attachments s"
  by (auto simp: onClientMessage_def handler_failed_def
           split: option.split prod.split outcome.split dest: run_script_platform_eq)

lemma onWebSocketCloseOrError_attachments [simp]:
  "attachments (onWebSocketCloseOrError cfg w error s) = attachments s"
  by (auto simp: onWebSocketCloseOrError_def
           split: option.split prod.split outcome.split dest: run_script_platform_eq)

lemma onMessage_attachments:
  "attachments (onMessage cfg p w frame s) =
     (case map_of (socketInfo s) w of
        None \<Rightarrow> attachments s
      | Some info \<Rightarrow> if status info = Pending
                     then AList.update w (info\<lparr>status := Ready\<rparr>) (attachments s)
                     else attachments s)"
  by (simp add: onMessage_def Let_def split: option.split sum.split)

lemma fetch_attachments:
  "attachments (snd (fetch cfg p req uuid s)) = attachments s \<or>
   (\<exists>info. attachments (snd (fetch cfg p req uuid s))
             = AList.update (Suc (nextSocket s)) info (attachments s))"
  by (auto simp: fetch_def Let_def
           split: option.split sum.split prod.split outcome.split dest!: run_script_platform_eq)

lemma promoted_trans: "promoted a b \<Longrightarrow> promoted b c \<Longrightarrow> promoted a c"
  by (auto simp: promoted_def)

lemma attachment_step:
  assumes wf: "wf_state s" and a: "map_of (attachments s) w = Some a"
  shows "\<exists>a'. map_of (attachments (step cfg p ev s)) w = Some a' \<and> promoted a a'"
proof (cases ev)
  case (Fetch req uuid)
  have "w < nextSocket s"
    using wf a by (simp add: wf_state_iff)
  then show ?thesis
    using a fetch_attachments [of cfg p req uuid s] Fetch
    by (auto simp: update_conv' promoted_def)
next
  case (Message w' frame)
  show ?thesis
  proof (cases "map_of (socketInfo s) w'")
    case None
    then show ?thesis
      using a Message by (simp add: onMessage_attachments promoted_def)
  next
    case (Some info)
    then have "map_of (attachments s) w' = Some info"
      using wf by (simp add: wf_tracked(1))
    then show ?thesis
      using a Message Some by (auto simp: onMessage_attachments update_conv' promoted_def)
  qed
qed (use a in \<open>simp_all add: promoted_def onClose_def onError_def constructor_def\<close>)

lemma attachment_run:
  assumes "wf_state s" and "map_of (attachments s) w = Some a"
  shows "\<exists>a'. map_of (attachments (run cfg p evs s)) w = Some a' \<and> promoted a a'"
  using assms
proof (induction evs arbitrary: s a)
  case Nil
  then show ?case by (simp add: run_def promoted_def)
next
  case (Cons ev evs)
  obtain b where b: "map_of (attachments (step cfg p ev s)) w = Some b" "promoted a b"
    using attachment_step [OF Cons.prems] by blast
  obtain c where "map_of (attachments (run cfg p evs (step cfg p ev s))) w = Some c" "promoted b c"
    using Cons.IH [OF wf_step [OF Cons.prems(1)] b(1)] by blast
  then show ?case
    using b(2) by (auto simp: run_def intro: promoted_trans)
qed

lemma run_script_registry_eq:
  "run_script cfg sc (emit e s) = (r, s') \<Longrightarrow> wf_state s \<Longrightarrow> socketInfo s' = socketInfo s"
  using run_script_delivers [of "emit e s" cfg sc] by (simp add: delivers_def wf_no_closed)

lemma fetch_registry:
  assumes wf: "wf_state s"
    and after: "map_of (socketInfo (snd (fetch cfg p req uuid s))) w = Some j"
  shows "map_of (socketInfo s) w = Some j \<or> (w = Suc (nextSocket s) \<and> status j = Pending)"
proof -
  let ?n = "nextSocket s"
  have accepted: "wf_state (updateSocketInfo (Suc ?n) i
                    (emit (AcceptWebSocket (Suc ?n)) (s\<lparr>nextSocket := Suc (Suc ?n)\<rparr>)))"
    if "status i = Pending" for i
    using that wf by (intro wf_update) (simp_all add: wf_allocate)
  show ?thesis
    using after
    by (auto simp: fetch_def Let_def update_conv'
           split: option.splits sum.splits prod.splits outcome.splits if_splits
           dest!: run_script_registry_eq intro!: accepted)
qed


text \<open>
  C2. Over any sequence of operations from a state of the invariant, a session that is
  tracked before and after has either the record it had, or was \<open>pending\<close> and has the
  same record with status \<open>ready\<close>: the status moves along \<open>pending \<rightarrow> ready\<close> only
  (closing removes the record), which is within the transitions the specification
  allows, and never backwards. A record that appears in the registry through a handshake
  has status \<open>pending\<close>.
\<close>

theorem status_only_moves_forward:
  assumes "wf_state s"
  shows "(\<forall>i i'. map_of (socketInfo s) w = Some i \<and>
                 map_of (socketInfo (run cfg p evs s)) w = Some i'
            \<longrightarrow> legal_transition (status i) (status i') \<and> promoted i i' \<and>
                \<not> (status i = Ready \<and> status i' = Pending) \<and>
                \<not> (status i = Closed \<and> status i' \<noteq> Closed))
       \<and> (\<forall>req uuid j. map_of (socketInfo s) w = None \<and>
                 map_of (socketInfo (step cfg p (Fetch req uuid) s)) w = Some j
            \<longrightarrow> status j = Pending)"
proof (intro conjI allI impI)
  fix i i'
  assume tracked: "map_of (socketInfo s) w = Some i \<and>
                 map_of (socketInfo (run cfg p evs s)) w = Some i'"
  have "map_of (attachments s) w = Some i"
    using assms tracked by (simp add: wf_tracked(1))
  then obtain a' where a': "map_of (attachments (run cfg p evs s)) w = Some a'" "promoted i a'"
    using attachment_run [OF assms] by blast
  have "map_of (attachments (run cfg p evs s)) w = Some i'"
    using wf_run [OF assms] tracked by (simp add: wf_tracked(1))
  then have p: "promoted i i'"
    using a' by simp
  then show "promoted i i'" .
  show "legal_transition (status i) (status i')"
    using p by (auto simp: promoted_def legal_transition_def)
  show "\<not> (status i = Ready \<and> status i' = Pending)"
    using p by (auto simp: promoted_def)
  show "\<not> (status i = Closed \<and> status i' \<noteq> Closed)"
    using p by (auto simp: promoted_def)
next
  fix req uuid j
  assume "map_of (socketInfo s) w = None \<and>
                 map_of (socketInfo (step cfg p (Fetch req uuid) s)) w = Some j"
  then show "status j = Pending"
    using fetch_registry [OF assms, of cfg p req uuid w j] by auto
qed

theorem status_only_moves_forward_witness:
  \<open>wf_state connected
   \<and> map_of (socketInfo connected) 1
       = Some \<lparr>audience = ''room-1'', subject = ''alice'', socketId = ''id-a'', status = Pending\<rparr>
   \<and> map_of (socketInfo (run demo_config demo_platform
         [Message 1 ''{"type":"echo","messageId":"1"}''] connected)) 1
       = Some \<lparr>audience = ''room-1'', subject = ''alice'', socketId = ''id-a'', status = Ready\<rparr>
   \<and> legal_transition Pending Ready
   \<and> wf_state initial
   \<and> map_of (socketInfo initial) 1 = None
   \<and> map_of (socketInfo (step demo_config demo_platform
         (Fetch (upgrade ''alice.room-1'') ''id-a'') initial)) 1
       = Some \<lparr>audience = ''room-1'', subject = ''alice'', socketId = ''id-a'', status = Pending\<rparr>\<close>
proof -
  have wf: "wf_state connected"
    unfolding connected_def by (intro wf_run wf_initial)
  have before: "map_of (socketInfo connected) 1
       = Some \<lparr>audience = ''room-1'', subject = ''alice'', socketId = ''id-a'', status = Pending\<rparr>"
    by (simp add: connected_registry)
  have after: \<open>map_of (socketInfo (run demo_config demo_platform
         [Message 1 ''{"type":"echo","messageId":"1"}''] connected)) 1
       = Some \<lparr>audience = ''room-1'', subject = ''alice'', socketId = ''id-a'', status = Ready\<rparr>\<close>
    using alice_ready_registry by (simp add: alice_ready_def)
  have created: "map_of (socketInfo (step demo_config demo_platform
         (Fetch (upgrade ''alice.room-1'') ''id-a'') initial)) 1
       = Some \<lparr>audience = ''room-1'', subject = ''alice'', socketId = ''id-a'', status = Pending\<rparr>"
    by (simp add: demo_defs)
  have none: "map_of (socketInfo initial) 1 = None"
    by (simp add: initial_def)
  show ?thesis
    using status_only_moves_forward [OF wf, of 1 demo_config demo_platform
        \<open>[Message 1 ''{"type":"echo","messageId":"1"}'']\<close>]
      status_only_moves_forward [OF wf_initial, of 1 demo_config demo_platform "[]"]
      wf wf_initial before after created none
    by simp
qed

section \<open>No record with status \<open>closed\<close>\<close>

lemma quiet_emit:
  "e \<noteq> ConsoleError ''Cannot send message to closed socket'' \<Longrightarrow> quiet (emit e s) = quiet s"
  by (auto simp: quiet_def)

lemma quiet_delivers: "delivers s s' \<Longrightarrow> quiet s \<Longrightarrow> quiet s'"
proof -
  assume d: "delivers s s'" and q: "quiet s"
  obtain new where new: "trace s' = trace s @ new" "list_all is_frame new"
    using d by (auto simp: delivers_def)
  have "ConsoleError ''Cannot send message to closed socket'' \<notin> set new"
  proof
    assume "ConsoleError ''Cannot send message to closed socket'' \<in> set new"
    then have "is_frame (ConsoleError ''Cannot send message to closed socket'')"
      using new(2) by (simp only: list_all_iff)
    then show False by simp
  qed
  then show ?thesis
    using q new(1) by (simp add: quiet_def)
qed

lemma quiet_run_script_eq:
  "run_script cfg sc (emit e s) = (r, s') \<Longrightarrow> wf_state s \<Longrightarrow> quiet (emit e s) \<Longrightarrow> quiet s'"
  using run_script_delivers [of "emit e s" cfg sc] quiet_delivers [of "emit e s" s']
  by (simp add: wf_no_closed)

lemma quiet_send: "wf_state s \<Longrightarrow> quiet s \<Longrightarrow> quiet (snd (send cfg msg to notTo s))"
  by (blast intro: quiet_delivers send_delivers wf_no_closed)

lemma quiet_fetch: "wf_state s \<Longrightarrow> quiet s \<Longrightarrow> quiet (snd (fetch cfg p req uuid s))"
proof -
  assume wf: "wf_state s" and q: "quiet s"
  let ?n = "nextSocket s"
  have accepted: "wf_state (updateSocketInfo (Suc ?n) i
                    (emit (AcceptWebSocket (Suc ?n)) (s\<lparr>nextSocket := Suc (Suc ?n)\<rparr>)))"
    if "status i = Pending" for i
    using that wf by (intro wf_update) (simp_all add: wf_allocate)
  have q': "quiet (emit e (updateSocketInfo (Suc ?n) i
                    (emit (AcceptWebSocket (Suc ?n)) (s\<lparr>nextSocket := Suc (Suc ?n)\<rparr>))))"
    if "e \<noteq> ConsoleError ''Cannot send message to closed socket''" for e i
    using q that by (simp add: quiet_def)
  show ?thesis
    using q q' [of "AcceptWebSocket 0"]
    by (auto simp: fetch_def Let_def
             split: option.split sum.split prod.split outcome.split
             dest!: quiet_run_script_eq intro!: accepted q')
       (simp_all add: quiet_def)
qed

lemma quiet_promote: "quiet s \<Longrightarrow> quiet (promote w info s)"
  by (auto simp: quiet_def)

lemma quiet_onClientMessage:
  "wf_state s \<Longrightarrow> quiet s \<Longrightarrow> quiet (onClientMessage cfg msg w info s)"
  by (auto simp: onClientMessage_def handler_failed_def quiet_emit
           split: option.split prod.split outcome.split
           dest!: quiet_run_script_eq)

lemma quiet_onMessage: "wf_state s \<Longrightarrow> quiet s \<Longrightarrow> quiet (onMessage cfg p w frame s)"
  by (auto simp: onMessage_def Let_def quiet_emit quiet_promote wf_promote quiet_onClientMessage
           split: option.split sum.split)

lemma quiet_registry [simp]: "quiet (s\<lparr>socketInfo := r\<rparr>) = quiet s"
  by (simp add: quiet_def)

lemma quiet_onWebSocketCloseOrError:
  "wf_state s \<Longrightarrow> quiet s \<Longrightarrow> quiet (onWebSocketCloseOrError cfg w error s)"
  by (auto simp: onWebSocketCloseOrError_def quiet_emit
           split: option.split prod.split outcome.split
           dest!: quiet_run_script_eq)

lemma quiet_step: "wf_state s \<Longrightarrow> quiet s \<Longrightarrow> quiet (step cfg p ev s)"
  by (cases ev)
     (simp_all add: quiet_fetch quiet_send quiet_onMessage onClose_def onError_def
        quiet_onWebSocketCloseOrError quiet_emit, simp add: quiet_def constructor_def)

lemma quiet_run: "wf_state s \<Longrightarrow> quiet s \<Longrightarrow> quiet (run cfg p evs s)"
  unfolding run_def by (induction evs arbitrary: s) (simp_all add: wf_step quiet_step)


text \<open>
  C10. In every state reached from the initial one by handshakes, deliveries, inbound
  frames, close and error events and rehydrations, no record of the registry and no
  persisted attachment has status \<open>closed\<close>; the branch of \<open>send\<close> for that status
  never ran (its log is not in the trace) and a further \<open>send\<close> does not run it either:
  it removes nothing from the registry and logs nothing.
\<close>

theorem closed_status_is_unreachable:
  "no_closed (socketInfo (run cfg p evs initial))
   \<and> no_closed (attachments (run cfg p evs initial))
   \<and> quiet (run cfg p evs initial)
   \<and> socketInfo (snd (send cfg msg to notTo (run cfg p evs initial)))
       = socketInfo (run cfg p evs initial)
   \<and> quiet (snd (send cfg msg to notTo (run cfg p evs initial)))"
proof -
  let ?s = "run cfg p evs initial"
  have wf: "wf_state ?s"
    by (intro wf_run wf_initial)
  have q: "quiet ?s"
    by (intro quiet_run wf_initial) (simp add: quiet_def initial_def)
  have "delivers ?s (snd (send cfg msg to notTo ?s))"
    using wf by (intro send_delivers wf_no_closed)
  then have same: "socketInfo (snd (send cfg msg to notTo ?s)) = socketInfo ?s"
    by (simp add: delivers_def)
  have "no_closed (socketInfo ?s)" and "no_closed (attachments ?s)"
    using wf by (simp_all add: wf_state_def)
  then show ?thesis
    using same q quiet_send [OF wf q] by simp
qed

theorem closed_status_is_unreachable_witness:
  \<open>no_closed (socketInfo (run demo_config demo_platform
      [Fetch (upgrade ''alice.room-1'') ''id-a'', Fetch (upgrade ''bob.room-1'') ''id-b'',
       Message 1 ''{"type":"echo","messageId":"1"}'', Wake [1, 3],
       Close 3 1000 ''bye'' True] initial))
   \<and> no_closed (attachments (run demo_config demo_platform
      [Fetch (upgrade ''alice.room-1'') ''id-a'', Fetch (upgrade ''bob.room-1'') ''id-b'',
       Message 1 ''{"type":"echo","messageId":"1"}'', Wake [1, 3],
       Close 3 1000 ''bye'' True] initial))
   \<and> quiet (snd (send demo_config ping None None (run demo_config demo_platform
      [Fetch (upgrade ''alice.room-1'') ''id-a'', Fetch (upgrade ''bob.room-1'') ''id-b'',
       Message 1 ''{"type":"echo","messageId":"1"}'', Wake [1, 3],
       Close 3 1000 ''bye'' True] initial)))
   \<and> map status (map snd (socketInfo (run demo_config demo_platform
      [Fetch (upgrade ''alice.room-1'') ''id-a'', Fetch (upgrade ''bob.room-1'') ''id-b'',
       Message 1 ''{"type":"echo","messageId":"1"}'', Wake [1, 3],
       Close 3 1000 ''bye'' True] initial))) = [Ready]\<close>
proof -
  have \<open>map status (map snd (socketInfo (run demo_config demo_platform
      [Fetch (upgrade ''alice.room-1'') ''id-a'', Fetch (upgrade ''bob.room-1'') ''id-b'',
       Message 1 ''{"type":"echo","messageId":"1"}'', Wake [1, 3],
       Close 3 1000 ''bye'' True] initial))) = [Ready]\<close>
    by (simp add: demo_defs)
  then show ?thesis
    using closed_status_is_unreachable [of demo_config demo_platform
      \<open>[Fetch (upgrade ''alice.room-1'') ''id-a'', Fetch (upgrade ''bob.room-1'') ''id-b'',
       Message 1 ''{"type":"echo","messageId":"1"}'', Wake [1, 3],
       Close 3 1000 ''bye'' True]\<close> ping None None]
    by blast
qed

section \<open>The handshake\<close>

lemma fetch_changes_only_after_verification:
  assumes "fst (fetch cfg p req uuid s) = Inr resp \<or> snd (fetch cfg p req uuid s) \<noteq> s"
  shows "\<exists>token claims. tokenQuery req = Some token \<and>
           jwtVerify p token (tokenSecret cfg) = Inr claims \<and> aud claims = ctxId p"
  using assms
  by (auto simp: fetch_def verifySocketToken_def Let_def
           split: option.splits sum.splits if_splits)

text \<open>
  C3. An upgrade request whose token verifies with an audience other than the identity
  of the actor is rejected: the route throws \<open>Error("Invalid audience")\<close> and the state
  is the one before the call, so no pair of connections was created, none accepted, no
  session stored or persisted and no hook called. Conversely, any call that completes
  the upgrade, or leaves any mark on the state, had a token that verified with the
  actor's own identity as audience.
\<close>

theorem handshake_rejects_wrong_audience:
  assumes "upgradeHeader req = Some h" and "toLowerCase h = ''websocket''"
    and "tokenQuery req = Some token" and "token \<noteq> []"
    and "jwtVerify p token (tokenSecret cfg) = Inr claims"
    and "aud claims \<noteq> ctxId p"
  shows "fetch cfg p req uuid s = (Inl (Err (Error ''Invalid audience'')), s)
       \<and> length (socketInfo (snd (fetch cfg p req uuid s))) = length (socketInfo s)
       \<and> added s (snd (fetch cfg p req uuid s)) = []
       \<and> (\<forall>req' resp. fst (fetch cfg p req' uuid s) = Inr resp
                         \<or> snd (fetch cfg p req' uuid s) \<noteq> s
            \<longrightarrow> (\<exists>token' claims'. tokenQuery req' = Some token' \<and>
                   jwtVerify p token' (tokenSecret cfg) = Inr claims' \<and>
                   aud claims' = ctxId p))"
proof -
  have "h \<noteq> []"
    using assms(2) by (auto simp: toLowerCase_def)
  then have rejected: "fetch cfg p req uuid s = (Inl (Err (Error ''Invalid audience'')), s)"
    using assms by (simp add: fetch_def verifySocketToken_def)
  show ?thesis
    using rejected fetch_changes_only_after_verification [of cfg p _ uuid s]
    by (simp add: added_def)
qed

theorem handshake_rejects_wrong_audience_witness:
  "upgradeHeader (upgrade ''alice.room-2'') = Some ''WebSocket''
   \<and> toLowerCase ''WebSocket'' = ''websocket''
   \<and> tokenQuery (upgrade ''alice.room-2'') = Some ''alice.room-2''
   \<and> jwtVerify demo_platform ''alice.room-2'' (tokenSecret demo_config)
       = Inr \<lparr>sub = ''alice'', aud = ''room-2''\<rparr>
   \<and> ctxId demo_platform = ''room-1''
   \<and> fetch demo_config demo_platform (upgrade ''alice.room-2'') ''id-c'' connected
       = (Inl (Err (Error ''Invalid audience'')), connected)
   \<and> fst (fetch demo_config demo_platform (upgrade ''alice.room-1'') ''id-c'' connected)
       = Inr \<lparr>statusCode = 101, webSocket = 4\<rparr>"
proof -
  have h: "upgradeHeader (upgrade ''alice.room-2'') = Some ''WebSocket''"
    and l: "toLowerCase ''WebSocket'' = ''websocket''"
    and t: "tokenQuery (upgrade ''alice.room-2'') = Some ''alice.room-2''"
    and n: "''alice.room-2'' \<noteq> []"
    and v: "jwtVerify demo_platform ''alice.room-2'' (tokenSecret demo_config)
       = Inr \<lparr>sub = ''alice'', aud = ''room-2''\<rparr>"
    and a: "aud \<lparr>sub = ''alice'', aud = ''room-2''\<rparr> \<noteq> ctxId demo_platform"
    by (simp_all add: upgrade_def toLowerCase_def demo_platform_def demo_config_def)
  have ok: "fst (fetch demo_config demo_platform (upgrade ''alice.room-1'') ''id-c'' connected)
       = Inr \<lparr>statusCode = 101, webSocket = 4\<rparr>"
    by (simp add: fetch_def verifySocketToken_def toLowerCase_def upgrade_def demo_platform_def
        demo_config_def Let_def connected_platform)
  show ?thesis
    using handshake_rejects_wrong_audience [OF h l t n v a, of "''id-c''" connected] h l t v ok
    by (simp add: demo_platform_def)
qed


section \<open>Inbound frames\<close>

lemma added_append: "trace s' = trace s @ new \<Longrightarrow> added s s' = new"
  by (simp add: added_def)

lemma send_extends: "\<exists>new. trace (snd (send cfg msg to notTo s)) = trace s @ new"
  by (cases "serverMessageShape cfg msg") (simp_all add: send_def send_loop_trace)

lemma run_script_extends: "\<exists>new. trace (snd (run_script cfg sc s)) = trace s @ new"
proof (induction sc arbitrary: s)
  case (CallSend m to notTo ok failed)
  obtain new where new: "trace (snd (send cfg m to notTo s)) = trace s @ new"
    using send_extends by blast
  obtain r s1 where s1: "send cfg m to notTo s = (r, s1)"
    by (cases "send cfg m to notTo s")
  obtain new1 new2 where
    "trace (snd (run_script cfg ok s1)) = trace s1 @ new1"
    "trace (snd (run_script cfg failed s1)) = trace s1 @ new2"
    using CallSend.IH by blast
  then show ?case
    using new s1 by (cases r) auto
qed simp_all

lemma onClientMessage_extends:
  "\<exists>new. trace (onClientMessage cfg msg w info s) = trace s @ new"
proof (cases "messageHandlers cfg (msgType msg)")
  case None
  then show ?thesis by (simp add: onClientMessage_def)
next
  case (Some handler)
  obtain r s' where run: "run_script cfg (handler msg info w) (emit (CallHandler msg info w) s) = (r, s')"
    by (cases "run_script cfg (handler msg info w) (emit (CallHandler msg info w) s)")
  obtain new where "trace s' = trace s @ CallHandler msg info w # new"
    using run_script_extends [of cfg "handler msg info w" "emit (CallHandler msg info w) s"] run
    by auto
  then show ?thesis
    using Some run by (cases r) (simp_all add: onClientMessage_def handler_failed_def)
qed

lemma onClientMessage_registry:
  "wf_state s \<Longrightarrow> socketInfo (onClientMessage cfg msg w info s) = socketInfo s"
  by (auto simp: onClientMessage_def handler_failed_def
           split: option.split prod.split outcome.split dest: run_script_registry_eq)

lemma onMessage_registry:
  assumes "wf_state s" and "map_of (socketInfo s) w = Some info"
  shows "socketInfo (onMessage cfg p w frame s)
           = (if status info = Pending
              then AList.update w (info\<lparr>status := Ready\<rparr>) (socketInfo s) else socketInfo s)"
  using assms
  by (simp add: onMessage_def Let_def onClientMessage_registry wf_promote
           split: option.split sum.split)

lemma onMessage_extends_promotion:
  assumes "map_of (socketInfo s) w = Some info"
  shows "\<exists>rest. trace (onMessage cfg p w frame s)
           = trace (if status info = Pending then promote w info s else s) @ rest"
proof -
  let ?s1 = "if status info = Pending then promote w info s else s"
  show ?thesis
  proof (cases "JSON_parse p frame")
    case None
    then show ?thesis
      using assms by (simp add: onMessage_def Let_def)
  next
    case (Some asObject)
    show ?thesis
    proof (cases "clientMessageShape cfg asObject")
      case (Inl e)
      then show ?thesis
        using assms Some by (simp add: onMessage_def Let_def)
    next
      case (Inr msg)
      then have "onMessage cfg p w frame s = onClientMessage cfg msg w info ?s1"
        using assms Some by (simp add: onMessage_def Let_def)
      then show ?thesis
        using onClientMessage_extends [of cfg msg w info ?s1] by simp
    qed
  qed
qed

section \<open>The queue of a pending session\<close>

text \<open>
  The queues live in the instance: a newly constructed one, as after a hibernation, has
  none, whatever was queued before.
\<close>

lemma constructor_backlogs: "messageBacklogs (constructor sockets s) sid = None"
  by (simp add: constructor_def)

text \<open>Within one instance a queue only gets longer at its end.\<close>

lemma grows_same: "messageBacklogs s' = messageBacklogs s \<Longrightarrow> grows sid s s'"
  by (simp add: grows_def backlog_of_def)

lemma grows_trans: "grows sid s s' \<Longrightarrow> grows sid s' s'' \<Longrightarrow> grows sid s s''"
  by (auto simp: grows_def)

lemma send_grows: "grows sid s (snd (send cfg msg to notTo s))"
proof (cases "serverMessageShape cfg msg")
  case (Inl e)
  then show ?thesis by (simp add: send_def grows_same)
next
  case (Inr data)
  then have "backlog_of (snd (send cfg msg to notTo s)) sid
               = backlog_of s sid @ replicate (queued to notTo sid (socketInfo s)) data"
    by (simp add: send_valid backlog_of_def send_loop_backlog)
  then show ?thesis
    unfolding grows_def by blast
qed

lemma run_script_grows: "grows sid s (snd (run_script cfg sc s))"
proof (induction sc arbitrary: s)
  case (CallSend m to notTo ok failed)
  obtain r s1 where s1: "send cfg m to notTo s = (r, s1)"
    by (cases "send cfg m to notTo s")
  have g: "grows sid s s1"
    using send_grows [of sid s cfg m to notTo] s1 by simp
  show ?case
    using s1 grows_trans [OF g CallSend.IH(1) [of s1]] grows_trans [OF g CallSend.IH(2) [of s1]]
    by (cases r) simp_all
qed (simp_all add: grows_same)

lemma run_script_grows_eq:
  assumes "run_script cfg sc s0 = (r, s')" and "messageBacklogs s0 = messageBacklogs s"
  shows "grows sid s s'"
  using grows_trans [OF grows_same [OF assms(2)] run_script_grows [of sid s0 cfg sc]] assms(1)
  by simp

lemma fetch_grows: "grows sid s (snd (fetch cfg p req uuid s))"
  by (auto simp: fetch_def Let_def grows_same
           split: option.split sum.split prod.split outcome.split
           elim!: run_script_grows_eq)

lemma onClientMessage_grows: "grows sid s (onClientMessage cfg msg w info s)"
proof (cases "messageHandlers cfg (msgType msg)")
  case None
  then show ?thesis by (simp add: onClientMessage_def grows_same)
next
  case (Some handler)
  obtain r s' where run: "run_script cfg (handler msg info w) (emit (CallHandler msg info w) s) = (r, s')"
    by (cases "run_script cfg (handler msg info w) (emit (CallHandler msg info w) s)")
  have g: "grows sid s s'"
    using run by (rule run_script_grows_eq) simp
  have "grows sid s' (onClientMessage cfg msg w info s)"
    using Some run by (cases r) (simp_all add: onClientMessage_def handler_failed_def grows_same)
  then show ?thesis
    using g by (rule grows_trans [rotated])
qed

lemma onMessage_grows: "grows sid s (onMessage cfg p w frame s)"
proof (cases "map_of (socketInfo s) w")
  case None
  then show ?thesis by (simp add: onMessage_def grows_same)
next
  case (Some info)
  let ?s1 = "if status info = Pending then promote w info s else s"
  have g1: "grows sid s ?s1"
    by (rule grows_same) simp
  have "grows sid ?s1 (onMessage cfg p w frame s)"
  proof (cases "JSON_parse p frame")
    case None
    then show ?thesis
      using Some by (simp add: onMessage_def Let_def grows_same)
  next
    case parsed: (Some asObject)
    show ?thesis
    proof (cases "clientMessageShape cfg asObject")
      case (Inl e)
      then show ?thesis
        using Some parsed by (simp add: onMessage_def Let_def grows_same)
    next
      case (Inr msg)
      then have "onMessage cfg p w frame s = onClientMessage cfg msg w info ?s1"
        using Some parsed by (simp add: onMessage_def Let_def)
      then show ?thesis
        using onClientMessage_grows [of sid ?s1 cfg msg w info] by simp
    qed
  qed
  then show ?thesis
    using g1 by (rule grows_trans [rotated])
qed

lemma grows_registry [simp]: "grows sid s (s'\<lparr>socketInfo := r\<rparr>) = grows sid s s'"
  by (simp add: grows_def backlog_of_def)

lemma onWebSocketCloseOrError_grows: "grows sid s (onWebSocketCloseOrError cfg w error s)"
  by (auto simp: onWebSocketCloseOrError_def grows_same
           split: option.split prod.split outcome.split
           elim!: run_script_grows_eq)

lemma step_grows: "same_instance ev \<Longrightarrow> grows sid s (step cfg p ev s)"
proof (cases ev)
  case (Close w code reason wasClean)
  show ?thesis
    using grows_trans [OF grows_same onWebSocketCloseOrError_grows,
        of "emit (WsClose w code ''Goodbye'') s" s sid cfg w None] Close
    by (simp add: onClose_def)
next
  case (SocketError w error)
  show ?thesis
    using grows_trans [OF grows_same onWebSocketCloseOrError_grows,
        of "emit (ConsoleError ''Websocket error'') s" s sid cfg w] SocketError
    by (simp add: onError_def)
qed (simp_all add: fetch_grows send_grows onMessage_grows)

lemma run_grows: "list_all same_instance evs \<Longrightarrow> grows sid s (run cfg p evs s)"
proof (induction evs arbitrary: s)
  case Nil
  then show ?case by (simp add: run_def grows_same)
next
  case (Cons ev evs)
  have "grows sid s (step cfg p ev s)"
    using Cons.prems by (simp add: step_grows)
  moreover have "grows sid (step cfg p ev s) (run cfg p evs (step cfg p ev s))"
    using Cons.prems by (intro Cons.IH) simp
  ultimately show ?case
    by (auto simp: run_def intro: grows_trans)
qed

text \<open>
  C1, as the code has it. A frame that arrives while the stored status is \<open>pending\<close>:
  the first effects of the call are the log of the promotion and then the messages
  that the instance holds under the session's \<open>socketId\<close>, sent on the connection in
  the order of the queue; whatever else the call produces (the handler's own deliveries,
  the reply) comes after them, and the record is stored with status \<open>ready\<close>. What the
  instance holds is everything queued since it was constructed: over any operations of
  the same instance a queue keeps what it held, in front and in order, so the messages
  queued at any earlier moment are among those sent, in the order they were queued; and
  each valid \<open>send\<close> appends its message behind what was queued.
\<close>

theorem pending_frame_flushes_instance_backlog:
  assumes same: "list_all same_instance evs"
    and tracked: "map_of (socketInfo (run cfg p evs s)) w = Some info"
    and pending: "status info = Pending"
  shows "(\<exists>later rest.
            backlog_of (run cfg p evs s) (socketId info) = backlog_of s (socketId info) @ later \<and>
            added (run cfg p evs s) (onMessage cfg p w frame (run cfg p evs s))
              = ConsoleLog ''Socket ready''
                # map (WsSend w) (backlog_of s (socketId info) @ later) @ rest)
       \<and> (wf_state s \<longrightarrow>
            map_of (socketInfo (onMessage cfg p w frame (run cfg p evs s))) w
              = Some (info\<lparr>status := Ready\<rparr>))
       \<and> (\<forall>msg data to notTo sid. serverMessageShape cfg msg = Inr data \<longrightarrow>
            backlog_of (snd (send cfg msg to notTo s)) sid
              = backlog_of s sid @ replicate (queued to notTo sid (socketInfo s)) data)"
proof (intro conjI impI allI)
  let ?s' = "run cfg p evs s"
  obtain later where later: "backlog_of ?s' (socketId info) = backlog_of s (socketId info) @ later"
    using run_grows [OF same, of "socketId info" s cfg p] by (auto simp: grows_def)
  obtain rest where "trace (onMessage cfg p w frame ?s') = trace (promote w info ?s') @ rest"
    using onMessage_extends_promotion [OF tracked, of cfg p frame] pending by auto
  then have "added ?s' (onMessage cfg p w frame ?s')
            = ConsoleLog ''Socket ready'' # map (WsSend w) (backlog_of s (socketId info) @ later) @ rest"
    using later by (intro added_append) simp
  then show "\<exists>later rest.
            backlog_of ?s' (socketId info) = backlog_of s (socketId info) @ later \<and>
            added ?s' (onMessage cfg p w frame ?s')
              = ConsoleLog ''Socket ready''
                # map (WsSend w) (backlog_of s (socketId info) @ later) @ rest"
    using later by blast
next
  assume "wf_state s"
  then have "wf_state (run cfg p evs s)"
    by (rule wf_run)
  then show "map_of (socketInfo (onMessage cfg p w frame (run cfg p evs s))) w
               = Some (info\<lparr>status := Ready\<rparr>)"
    using tracked pending by (simp add: onMessage_registry update_conv')
next
  fix msg data to notTo sid
  assume "serverMessageShape cfg msg = Inr data"
  then show "backlog_of (snd (send cfg msg to notTo s)) sid
              = backlog_of s sid @ replicate (queued to notTo sid (socketInfo s)) data"
    by (simp add: send_valid backlog_of_def send_loop_backlog)
qed


theorem pending_frame_flushes_instance_backlog_witness:
  \<open>list_all same_instance [Send pong None None, Message 3 ''not json'']
   \<and> map_of (socketInfo (run demo_config demo_platform
          [Send pong None None, Message 3 ''not json''] connected)) 1
       = Some \<lparr>audience = ''room-1'', subject = ''alice'', socketId = ''id-a'', status = Pending\<rparr>
   \<and> backlog_of connected ''id-a'' = [ping, ping]
   \<and> (\<exists>later rest.
         backlog_of (run demo_config demo_platform
            [Send pong None None, Message 3 ''not json''] connected) ''id-a''
           = [ping, ping] @ later \<and>
         added (run demo_config demo_platform
            [Send pong None None, Message 3 ''not json''] connected)
          (onMessage demo_config demo_platform 1 ''{"type":"echo","messageId":"1"}''
             (run demo_config demo_platform
                [Send pong None None, Message 3 ''not json''] connected))
           = ConsoleLog ''Socket ready'' # map (WsSend 1) ([ping, ping] @ later) @ rest)
   \<and> added (run demo_config demo_platform
          [Send pong None None, Message 3 ''not json''] connected)
        (onMessage demo_config demo_platform 1 ''{"type":"echo","messageId":"1"}''
           (run demo_config demo_platform
              [Send pong None None, Message 3 ''not json''] connected))
       = [ConsoleLog ''Socket ready'', WsSend 1 ping, WsSend 1 ping, WsSend 1 pong,
          CallHandler
            \<lparr>msgType = ''echo'', messageId = ''1'',
             payload = JObj [(''type'', JStr ''echo''), (''messageId'', JStr ''1'')]\<rparr>
            \<lparr>audience = ''room-1'', subject = ''alice'', socketId = ''id-a'', status = Pending\<rparr> 1,
          WsSend 1 pong,
          WsSend 1 (JObj [(''type'', JStr ''ack''), (''responseTo'', JStr ''1'')])]
   \<and> wf_state connected
   \<and> map_of (socketInfo
         (onMessage demo_config demo_platform 1 ''{"type":"echo","messageId":"1"}''
           (run demo_config demo_platform
              [Send pong None None, Message 3 ''not json''] connected))) 1
       = Some \<lparr>audience = ''room-1'', subject = ''alice'', socketId = ''id-a'', status = Ready\<rparr>
   \<and> serverMessageShape demo_config pong = Inr pong
   \<and> backlog_of (snd (send demo_config pong None None connected)) ''id-a''
       = [ping, ping, pong]\<close>
proof -
  let ?a = "\<lparr>audience = ''room-1'', subject = ''alice'', socketId = ''id-a'', status = Pending\<rparr>"
  let ?evs = "[Send pong None None, Message 3 ''not json'']"
  let ?s' = "run demo_config demo_platform ?evs connected"
  have same: "list_all same_instance ?evs"
    by simp
  have tracked: "map_of (socketInfo ?s') 1 = Some ?a"
    by (simp add: connected_def demo_defs)
  have pending: "status ?a = Pending"
    by simp
  have queue: "backlog_of connected ''id-a'' = [ping, ping]"
    by (simp add: backlog_of_def connected_backlogs)
  have all: \<open>added ?s'
        (onMessage demo_config demo_platform 1 ''{"type":"echo","messageId":"1"}'' ?s')
       = [ConsoleLog ''Socket ready'', WsSend 1 ping, WsSend 1 ping, WsSend 1 pong,
          CallHandler
            \<lparr>msgType = ''echo'', messageId = ''1'',
             payload = JObj [(''type'', JStr ''echo''), (''messageId'', JStr ''1'')]\<rparr>
            ?a 1,
          WsSend 1 pong,
          WsSend 1 (JObj [(''type'', JStr ''ack''), (''responseTo'', JStr ''1'')])]\<close>
    by (simp add: added_def connected_def demo_defs)
  have wf: "wf_state connected"
    unfolding connected_def by (intro wf_run wf_initial)
  have valid: "serverMessageShape demo_config pong = Inr pong"
    by (simp add: demo_config_def)
  have once: "queued None None ''id-a'' (socketInfo connected) = 1"
    by (simp add: queued_def targeted_def connected_registry)
  note flushed = pending_frame_flushes_instance_backlog
      [OF same tracked pending, of \<open>''{"type":"echo","messageId":"1"}''\<close>]
  have promoted: \<open>map_of (socketInfo
         (onMessage demo_config demo_platform 1 ''{"type":"echo","messageId":"1"}'' ?s')) 1
       = Some \<lparr>audience = ''room-1'', subject = ''alice'', socketId = ''id-a'', status = Ready\<rparr>\<close>
    using flushed [THEN conjunct2, THEN conjunct1] wf by simp
  have appended: "backlog_of (snd (send demo_config pong None None connected)) ''id-a''
       = [ping, ping, pong]"
    using flushed [THEN conjunct2, THEN conjunct2, THEN spec, THEN spec, THEN spec, THEN spec,
        THEN spec, of pong pong None None "''id-a''"] valid once queue
    by simp
  have first: \<open>\<exists>later rest.
         backlog_of ?s' ''id-a'' = [ping, ping] @ later \<and>
         added ?s'
          (onMessage demo_config demo_platform 1 ''{"type":"echo","messageId":"1"}'' ?s')
           = ConsoleLog ''Socket ready'' # map (WsSend 1) ([ping, ping] @ later) @ rest\<close>
    using flushed [THEN conjunct1] queue by simp
  show ?thesis
    using same tracked queue first all wf promoted valid appended
    by (simp only: simp_thms)
qed

text \<open>
  C1 as the claim states it fails: \<open>ping\<close> is queued twice for \<open>alice\<close>'s pending
  session, the actor hibernates and a new instance is constructed, which restores her
  record, still \<open>pending\<close>, and no queue. Her first frame then promotes the session and
  is answered, and the two queued messages are never sent.
\<close>

theorem queued_messages_lost_by_rehydration_counterexample:
  \<open>backlog_of queued_twice ''id-a'' = [ping, ping]
   \<and> map_of (socketInfo queued_twice) 1
       = Some \<lparr>audience = ''room-1'', subject = ''alice'', socketId = ''id-a'', status = Pending\<rparr>
   \<and> map_of (socketInfo hibernated) 1
       = Some \<lparr>audience = ''room-1'', subject = ''alice'', socketId = ''id-a'', status = Pending\<rparr>
   \<and> added hibernated
        (onMessage demo_config demo_platform 1 ''{"type":"echo","messageId":"1"}'' hibernated)
       = [ConsoleLog ''Socket ready'',
          CallHandler
            \<lparr>msgType = ''echo'', messageId = ''1'',
             payload = JObj [(''type'', JStr ''echo''), (''messageId'', JStr ''1'')]\<rparr>
            \<lparr>audience = ''room-1'', subject = ''alice'', socketId = ''id-a'', status = Pending\<rparr> 1,
          WsSend 1 pong,
          WsSend 1 (JObj [(''type'', JStr ''ack''), (''responseTo'', JStr ''1'')])]
   \<and> map_of (socketInfo
        (onMessage demo_config demo_platform 1 ''{"type":"echo","messageId":"1"}'' hibernated)) 1
       = Some \<lparr>audience = ''room-1'', subject = ''alice'', socketId = ''id-a'', status = Ready\<rparr>
   \<and> WsSend 1 ping
       \<notin> set (trace
        (onMessage demo_config demo_platform 1 ''{"type":"echo","messageId":"1"}'' hibernated))\<close>
  by (simp add: backlog_of_def added_def hibernated_def queued_twice_def demo_defs)


lemma promotion_trace:
  "trace (if status info = Pending then promote w info s else s)
     = trace s @ (if status info = Pending
                  then ConsoleLog ''Socket ready'' # map (WsSend w) (backlog_of s (socketId info))
                  else [])"
  by simp

text \<open>
  C5, as the code has it. On a tracked connection, a frame that \<open>JSON.parse\<close> rejects is
  answered from the \<open>catch\<close> block with exactly
  \<open>{type: "error", message: "Error handling message", responseTo: null}\<close>; the reply
  \<open>{type: "error", message: "Invalid message format", responseTo: null}\<close> is the answer
  to a frame that is JSON but fails the client message schema. In both cases the call
  adds nothing else to the trace but the promotion of a pending session, so no message
  handler is called.
\<close>

theorem invalid_frame_replies:
  assumes tracked: "map_of (socketInfo s) w = Some info"
  shows "(JSON_parse p frame = None \<longrightarrow>
            added s (onMessage cfg p w frame s)
              = (if status info = Pending
                 then ConsoleLog ''Socket ready'' # map (WsSend w) (backlog_of s (socketId info))
                 else [])
                @ [ConsoleError ''Error parsing or handling message'',
                   WsSend w (JObj [(''type'', JStr ''error''),
                                   (''message'', JStr ''Error handling message''),
                                   (''responseTo'', JNull)])])
       \<and> (\<forall>asObject e. JSON_parse p frame = Some asObject \<and>
                        clientMessageShape cfg asObject = Inl e \<longrightarrow>
            added s (onMessage cfg p w frame s)
              = (if status info = Pending
                 then ConsoleLog ''Socket ready'' # map (WsSend w) (backlog_of s (socketId info))
                 else [])
                @ [ConsoleError ''Invalid message'',
                   WsSend w (JObj [(''type'', JStr ''error''),
                                   (''message'', JStr ''Invalid message format''),
                                   (''responseTo'', JNull)])])
       \<and> (JSON_parse p frame = None \<or>
          (\<exists>asObject e. JSON_parse p frame = Some asObject \<and>
                         clientMessageShape cfg asObject = Inl e) \<longrightarrow>
            (\<forall>msg info' w'. CallHandler msg info' w' \<notin> set (added s (onMessage cfg p w frame s))))"
proof -
  let ?s1 = "if status info = Pending then promote w info s else s"
  let ?pre = "if status info = Pending
                 then ConsoleLog ''Socket ready'' # map (WsSend w) (backlog_of s (socketId info))
                 else []"
  have unparsed: "added s (onMessage cfg p w frame s)
      = ?pre @ [ConsoleError ''Error parsing or handling message'',
                WsSend w (JObj [(''type'', JStr ''error''),
                                (''message'', JStr ''Error handling message''),
                                (''responseTo'', JNull)])]"
    if "JSON_parse p frame = None"
  proof (rule added_append)
    have "onMessage cfg p w frame s
            = emit (WsSend w (error_reply ''Error handling message'' JNull))
                (emit (ConsoleError ''Error parsing or handling message'') ?s1)"
      using tracked that by (simp add: onMessage_def Let_def)
    then show "trace (onMessage cfg p w frame s)
      = trace s @ ?pre @ [ConsoleError ''Error parsing or handling message'',
                WsSend w (JObj [(''type'', JStr ''error''),
                                (''message'', JStr ''Error handling message''),
                                (''responseTo'', JNull)])]"
      by (simp add: error_reply_def)
  qed
  have misshaped: "added s (onMessage cfg p w frame s)
      = ?pre @ [ConsoleError ''Invalid message'',
                WsSend w (JObj [(''type'', JStr ''error''),
                                (''message'', JStr ''Invalid message format''),
                                (''responseTo'', JNull)])]"
    if "JSON_parse p frame = Some asObject" "clientMessageShape cfg asObject = Inl e"
    for asObject e
  proof (rule added_append)
    have "onMessage cfg p w frame s
            = emit (WsSend w (error_reply ''Invalid message format'' JNull))
                (emit (ConsoleError ''Invalid message'') ?s1)"
      using tracked that by (simp add: onMessage_def Let_def)
    then show "trace (onMessage cfg p w frame s)
      = trace s @ ?pre @ [ConsoleError ''Invalid message'',
                WsSend w (JObj [(''type'', JStr ''error''),
                                (''message'', JStr ''Invalid message format''),
                                (''responseTo'', JNull)])]"
      by (simp add: error_reply_def)
  qed
  have "CallHandler msg info' w' \<notin> set (added s (onMessage cfg p w frame s))"
    if "JSON_parse p frame = None \<or>
          (\<exists>asObject e. JSON_parse p frame = Some asObject \<and>
                         clientMessageShape cfg asObject = Inl e)"
    for msg info' w'
    using that unparsed misshaped by auto
  then show ?thesis
    using unparsed misshaped by blast
qed

theorem invalid_frame_replies_witness:
  \<open>map_of (socketInfo alice_ready) 1
     = Some \<lparr>audience = ''room-1'', subject = ''alice'', socketId = ''id-a'', status = Ready\<rparr>
   \<and> JSON_parse demo_platform ''not json'' = None
   \<and> added alice_ready (onMessage demo_config demo_platform 1 ''not json'' alice_ready)
       = [ConsoleError ''Error parsing or handling message'',
          WsSend 1 (JObj [(''type'', JStr ''error''),
                          (''message'', JStr ''Error handling message''),
                          (''responseTo'', JNull)])]
   \<and> JSON_parse demo_platform ''{"messageId":"3"}'' = Some (JObj [(''messageId'', JStr ''3'')])
   \<and> clientMessageShape demo_config (JObj [(''messageId'', JStr ''3'')]) = Inl ''Invalid input''
   \<and> added alice_ready (onMessage demo_config demo_platform 1 ''{"messageId":"3"}'' alice_ready)
       = [ConsoleError ''Invalid message'',
          WsSend 1 (JObj [(''type'', JStr ''error''),
                          (''message'', JStr ''Invalid message format''),
                          (''responseTo'', JNull)])]\<close>
proof -
  let ?a = "\<lparr>audience = ''room-1'', subject = ''alice'', socketId = ''id-a'', status = Ready\<rparr>"
  have tracked: "map_of (socketInfo alice_ready) 1 = Some ?a"
    by (simp add: alice_ready_registry)
  have unparsed: "JSON_parse demo_platform ''not json'' = None"
    by (simp add: demo_platform_def)
  have parsed: \<open>JSON_parse demo_platform ''{"messageId":"3"}'' = Some (JObj [(''messageId'', JStr ''3'')])\<close>
    by (simp add: demo_platform_def)
  have misshaped: "clientMessageShape demo_config (JObj [(''messageId'', JStr ''3'')]) = Inl ''Invalid input''"
    by (simp add: demo_config_def)
  show ?thesis
    using invalid_frame_replies [OF tracked, of demo_platform "''not json''" demo_config,
            THEN conjunct1]
      invalid_frame_replies [OF tracked, of demo_platform \<open>''{"messageId":"3"}''\<close> demo_config,
            THEN conjunct2, THEN conjunct1]
      tracked unparsed parsed misshaped
    by simp
qed

text \<open>
  C5 as the claim states it fails: the reply to the frame \<open>not json\<close>, which is not JSON
  text, carries the message \<open>Error handling message\<close>, and no frame with the message
  \<open>Invalid message format\<close> is sent.
\<close>

theorem unparseable_frame_reply_counterexample:
  "JSON_parse demo_platform ''not json'' = None
   \<and> map_of (socketInfo alice_ready) 1
       = Some \<lparr>audience = ''room-1'', subject = ''alice'', socketId = ''id-a'', status = Ready\<rparr>
   \<and> added alice_ready (onMessage demo_config demo_platform 1 ''not json'' alice_ready)
       = [ConsoleError ''Error parsing or handling message'',
          WsSend 1 (JObj [(''type'', JStr ''error''),
                          (''message'', JStr ''Error handling message''),
                          (''responseTo'', JNull)])]
   \<and> WsSend 1 (JObj [(''type'', JStr ''error''),
                     (''message'', JStr ''Invalid message format''),
                     (''responseTo'', JNull)])
       \<notin> set (added alice_ready (onMessage demo_config demo_platform 1 ''not json'' alice_ready))"
proof -
  have "added alice_ready (onMessage demo_config demo_platform 1 ''not json'' alice_ready)
       = [ConsoleError ''Error parsing or handling message'',
          WsSend 1 (JObj [(''type'', JStr ''error''),
                          (''message'', JStr ''Error handling message''),
                          (''responseTo'', JNull)])]"
    by (simp add: added_def alice_ready_def connected_def demo_defs)
  then show ?thesis
    by (simp add: alice_ready_registry demo_platform_def)
qed


lemma run_script_frames_eq:
  assumes "run_script cfg sc (emit e s) = (r, s')" and "wf_state s"
  shows "\<exists>new. trace s' = trace s @ e # new \<and> list_all is_frame new"
  using run_script_delivers [of "emit e s" cfg sc] assms
  by (simp add: delivers_def wf_no_closed)

text \<open>
  C8. A valid frame on a tracked connection whose type has a registered handler: when
  the handler returns (or its promise resolves) the last effect of the call is the frame
  \<open>ack\<close> with \<open>responseTo\<close> the message id; when it throws or rejects with an
  \<open>Error\<close> the call logs and then sends the frame \<open>error\<close> with the message of that
  error and the same \<open>responseTo\<close> (with \<open>An error occurred\<close> when the thrown value is
  not an \<open>Error\<close>), and sends no \<open>ack\<close> after the handler ended. In either case the
  connection is not closed and the session stays in the registry, with status \<open>ready\<close>.
\<close>

theorem handler_outcome_decides_reply:
  assumes wf: "wf_state s" and tracked: "map_of (socketInfo s) w = Some info"
    and parsed: "JSON_parse p frame = Some asObject"
    and valid: "clientMessageShape cfg asObject = Inr msg"
    and registered: "messageHandlers cfg (msgType msg) = Some handler"
    and ran: "run_script cfg (handler msg info w)
                (emit (CallHandler msg info w)
                   (if status info = Pending then promote w info s else s)) = (r, s')"
  shows "(r = Returned \<longrightarrow>
            onMessage cfg p w frame s
              = emit (WsSend w (JObj [(''type'', JStr ''ack''),
                                      (''responseTo'', JStr (messageId msg))])) s')
       \<and> (\<forall>e. r = Thrown (Err e) \<or> r = Rejected (Err e) \<longrightarrow>
            onMessage cfg p w frame s
              = emit (WsSend w (JObj [(''type'', JStr ''error''), (''message'', JStr (message e)),
                                      (''responseTo'', JStr (messageId msg))]))
                  (emit (ConsoleError ''Error handling message'') s'))
       \<and> (r = Thrown NonError \<or> r = Rejected NonError \<longrightarrow>
            onMessage cfg p w frame s
              = emit (WsSend w (JObj [(''type'', JStr ''error''),
                                      (''message'', JStr ''An error occurred''),
                                      (''responseTo'', JStr (messageId msg))]))
                  (emit (ConsoleError ''Error handling message'') s'))
       \<and> (r \<noteq> Returned \<longrightarrow>
            WsSend w (JObj [(''type'', JStr ''ack''), (''responseTo'', JStr (messageId msg))])
              \<notin> set (added s' (onMessage cfg p w frame s)))
       \<and> map_of (socketInfo (onMessage cfg p w frame s)) w = Some (info\<lparr>status := Ready\<rparr>)
       \<and> (\<forall>w' code reason. WsClose w' code reason \<notin> set (added s (onMessage cfg p w frame s)))"
proof -
  let ?s1 = "if status info = Pending then promote w info s else s"
  let ?ack = "WsSend w (JObj [(''type'', JStr ''ack''), (''responseTo'', JStr (messageId msg))])"
  let ?error = "\<lambda>m. WsSend w (JObj [(''type'', JStr ''error''), (''message'', JStr m),
                                      (''responseTo'', JStr (messageId msg))])"
  have dispatch: "onMessage cfg p w frame s = onClientMessage cfg msg w info ?s1"
    using tracked parsed valid by (simp add: onMessage_def Let_def)
  have returned: "onMessage cfg p w frame s = emit ?ack s'" if "r = Returned"
    using that dispatch registered ran by (simp add: onClientMessage_def ack_def)
  have failed: "onMessage cfg p w frame s
                  = emit (?error (case t of Err e \<Rightarrow> message e | NonError \<Rightarrow> ''An error occurred''))
                      (emit (ConsoleError ''Error handling message'') s')"
    if "r = Thrown t \<or> r = Rejected t" for t
    using that dispatch registered ran
    by (auto simp: onClientMessage_def handler_failed_def error_reply_def)
  have no_ack: "?ack \<notin> set (added s' (onMessage cfg p w frame s))" if nr: "r \<noteq> Returned"
  proof -
    obtain t where t: "r = Thrown t \<or> r = Rejected t"
      using nr by (cases r) auto
    have "added s' (onMessage cfg p w frame s)
            = [ConsoleError ''Error handling message'',
               ?error (case t of Err e \<Rightarrow> message e | NonError \<Rightarrow> ''An error occurred'')]"
      using failed [OF t] by (intro added_append) simp
    then show ?thesis by simp
  qed
  have wf1: "wf_state ?s1"
    using wf tracked by (simp add: wf_promote)
  have stays: "map_of (socketInfo (onMessage cfg p w frame s)) w = Some (info\<lparr>status := Ready\<rparr>)"
  proof (cases "status info")
    case Pending
    then show ?thesis
      using wf tracked by (simp add: onMessage_registry update_conv')
  next
    case Ready
    then have "info\<lparr>status := Ready\<rparr> = info"
      by simp
    then show ?thesis
      using wf tracked Ready by (simp add: onMessage_registry)
  next
    case Closed
    then show ?thesis
      using wf_tracked(2) [OF wf tracked] by simp
  qed
  obtain new where new: "trace s' = trace ?s1 @ CallHandler msg info w # new" "list_all is_frame new"
    using run_script_frames_eq [OF ran wf1] by blast
  have open_still: "WsClose w' code reason \<notin> set (added s (onMessage cfg p w frame s))"
    for w' code reason
  proof -
    have not_close: "WsClose w' code reason \<notin> set new"
      using new(2) by (auto simp: list_all_iff)
    obtain reply where reply: "trace (onMessage cfg p w frame s) = trace s' @ reply"
      "WsClose w' code reason \<notin> set reply"
    proof (cases r)
      case Returned
      then show ?thesis
        using returned that [of "[?ack]"] by simp
    next
      case (Thrown t)
      then show ?thesis
        using failed [of t]
          that [of "[ConsoleError ''Error handling message'',
               ?error (case t of Err e \<Rightarrow> message e | NonError \<Rightarrow> ''An error occurred'')]"]
        by simp
    next
      case (Rejected t)
      then show ?thesis
        using failed [of t]
          that [of "[ConsoleError ''Error handling message'',
               ?error (case t of Err e \<Rightarrow> message e | NonError \<Rightarrow> ''An error occurred'')]"]
        by simp
    qed
    have "added s (onMessage cfg p w frame s)
            = (if status info = Pending
               then ConsoleLog ''Socket ready'' # map (WsSend w) (backlog_of s (socketId info))
               else [])
              @ CallHandler msg info w # new @ reply"
      using reply(1) new(1) by (intro added_append) (simp add: promotion_trace)
    then show ?thesis
      using not_close reply(2) by auto
  qed
  show ?thesis
    using returned failed no_ack stays open_still by auto
qed


theorem handler_outcome_decides_reply_witness:
  \<open>wf_state alice_ready
   \<and> map_of (socketInfo alice_ready) 1
       = Some \<lparr>audience = ''room-1'', subject = ''alice'', socketId = ''id-a'', status = Ready\<rparr>
   \<and> JSON_parse demo_platform ''{"type":"echo","messageId":"2"}''
       = Some (JObj [(''type'', JStr ''echo''), (''messageId'', JStr ''2'')])
   \<and> clientMessageShape demo_config (JObj [(''type'', JStr ''echo''), (''messageId'', JStr ''2'')])
       = Inr \<lparr>msgType = ''echo'', messageId = ''2'',
              payload = JObj [(''type'', JStr ''echo''), (''messageId'', JStr ''2'')]\<rparr>
   \<and> messageHandlers demo_config ''echo'' = Some demo_echo
   \<and> added alice_ready
        (onMessage demo_config demo_platform 1 ''{"type":"echo","messageId":"2"}'' alice_ready)
       = [CallHandler
            \<lparr>msgType = ''echo'', messageId = ''2'',
             payload = JObj [(''type'', JStr ''echo''), (''messageId'', JStr ''2'')]\<rparr>
            \<lparr>audience = ''room-1'', subject = ''alice'', socketId = ''id-a'', status = Ready\<rparr> 1,
          ConsoleError ''Error handling message'',
          WsSend 1 (JObj [(''type'', JStr ''error''), (''message'', JStr ''boom''),
                          (''responseTo'', JStr ''2'')])]
   \<and> map_of (socketInfo
         (onMessage demo_config demo_platform 1 ''{"type":"echo","messageId":"2"}'' alice_ready)) 1
       = Some \<lparr>audience = ''room-1'', subject = ''alice'', socketId = ''id-a'', status = Ready\<rparr>
   \<and> added alice_ready
        (onMessage demo_config demo_platform 1 ''{"type":"echo","messageId":"1"}'' alice_ready)
       = [CallHandler
            \<lparr>msgType = ''echo'', messageId = ''1'',
             payload = JObj [(''type'', JStr ''echo''), (''messageId'', JStr ''1'')]\<rparr>
            \<lparr>audience = ''room-1'', subject = ''alice'', socketId = ''id-a'', status = Ready\<rparr> 1,
          WsSend 1 pong,
          WsSend 1 (JObj [(''type'', JStr ''ack''), (''responseTo'', JStr ''1'')])]
   \<and> added alice_ready
        (onMessage demo_config demo_platform 1 ''{"type":"echo","messageId":"4"}'' alice_ready)
       = [CallHandler
            \<lparr>msgType = ''echo'', messageId = ''4'',
             payload = JObj [(''type'', JStr ''echo''), (''messageId'', JStr ''4'')]\<rparr>
            \<lparr>audience = ''room-1'', subject = ''alice'', socketId = ''id-a'', status = Ready\<rparr> 1,
          ConsoleError ''Error handling message'',
          WsSend 1 (JObj [(''type'', JStr ''error''), (''message'', JStr ''An error occurred''),
                          (''responseTo'', JStr ''4'')])]\<close>
proof -
  let ?a = "\<lparr>audience = ''room-1'', subject = ''alice'', socketId = ''id-a'', status = Ready\<rparr>"
  let ?o1 = "JObj [(''type'', JStr ''echo''), (''messageId'', JStr ''1'')]"
  let ?o2 = "JObj [(''type'', JStr ''echo''), (''messageId'', JStr ''2'')]"
  let ?m1 = "\<lparr>msgType = ''echo'', messageId = ''1'', payload = ?o1\<rparr>"
  let ?m2 = "\<lparr>msgType = ''echo'', messageId = ''2'', payload = ?o2\<rparr>"
  let ?o4 = "JObj [(''type'', JStr ''echo''), (''messageId'', JStr ''4'')]"
  let ?m4 = "\<lparr>msgType = ''echo'', messageId = ''4'', payload = ?o4\<rparr>"
  let ?called4 = "emit (CallHandler ?m4 ?a 1) alice_ready"
  let ?called1 = "emit (CallHandler ?m1 ?a 1) alice_ready"
  let ?called2 = "emit (CallHandler ?m2 ?a 1) alice_ready"
  have wf: "wf_state alice_ready"
    unfolding alice_ready_def connected_def by (intro wf_run wf_initial)
  have tracked: "map_of (socketInfo alice_ready) 1 = Some ?a"
    by (simp add: alice_ready_registry)
  have parsed1: \<open>JSON_parse demo_platform ''{"type":"echo","messageId":"1"}'' = Some ?o1\<close>
    and parsed2: \<open>JSON_parse demo_platform ''{"type":"echo","messageId":"2"}'' = Some ?o2\<close>
    and parsed4: \<open>JSON_parse demo_platform ''{"type":"echo","messageId":"4"}'' = Some ?o4\<close>
    by (simp_all add: demo_platform_def)
  have valid1: "clientMessageShape demo_config ?o1 = Inr ?m1"
    and valid2: "clientMessageShape demo_config ?o2 = Inr ?m2"
    and valid4: "clientMessageShape demo_config ?o4 = Inr ?m4"
    by (simp_all add: demo_config_def)
  have registered1: "messageHandlers demo_config (msgType ?m1) = Some demo_echo"
    and registered2: "messageHandlers demo_config (msgType ?m2) = Some demo_echo"
    and registered4: "messageHandlers demo_config (msgType ?m4) = Some demo_echo"
    by (simp_all add: demo_config_def)
  have ran4: "run_script demo_config (demo_echo ?m4 ?a 1)
                (emit (CallHandler ?m4 ?a 1)
                   (if status ?a = Pending then promote 1 ?a alice_ready else alice_ready))
              = (Rejected NonError, ?called4)"
    by (simp add: demo_echo_def)
  have ran2: "run_script demo_config (demo_echo ?m2 ?a 1)
                (emit (CallHandler ?m2 ?a 1)
                   (if status ?a = Pending then promote 1 ?a alice_ready else alice_ready))
              = (Thrown (Err (Error ''boom'')), ?called2)"
    by (simp add: demo_echo_def)
  have ran1: "run_script demo_config (demo_echo ?m1 ?a 1)
                (emit (CallHandler ?m1 ?a 1)
                   (if status ?a = Pending then promote 1 ?a alice_ready else alice_ready))
              = (Returned, emit (WsSend 1 pong) ?called1)"
    by (simp add: demo_echo_def send_def demo_config_def send_one_def alice_ready_registry)
  note thrown = handler_outcome_decides_reply [OF wf tracked parsed2 valid2 registered2 ran2]
  note returned = handler_outcome_decides_reply [OF wf tracked parsed1 valid1 registered1 ran1]
  note rejected = handler_outcome_decides_reply [OF wf tracked parsed4 valid4 registered4 ran4]
  have reply4: \<open>added alice_ready
        (onMessage demo_config demo_platform 1 ''{"type":"echo","messageId":"4"}'' alice_ready)
       = [CallHandler ?m4 ?a 1, ConsoleError ''Error handling message'',
          WsSend 1 (JObj [(''type'', JStr ''error''), (''message'', JStr ''An error occurred''),
                          (''responseTo'', JStr ''4'')])]\<close>
    using rejected [THEN conjunct2, THEN conjunct2, THEN conjunct1] by (simp add: added_def)
  have reply2: \<open>added alice_ready
        (onMessage demo_config demo_platform 1 ''{"type":"echo","messageId":"2"}'' alice_ready)
       = [CallHandler ?m2 ?a 1, ConsoleError ''Error handling message'',
          WsSend 1 (JObj [(''type'', JStr ''error''), (''message'', JStr ''boom''),
                          (''responseTo'', JStr ''2'')])]\<close>
    using thrown [THEN conjunct2, THEN conjunct1] by (simp add: added_def)
  have reply1: \<open>added alice_ready
        (onMessage demo_config demo_platform 1 ''{"type":"echo","messageId":"1"}'' alice_ready)
       = [CallHandler ?m1 ?a 1, WsSend 1 pong,
          WsSend 1 (JObj [(''type'', JStr ''ack''), (''responseTo'', JStr ''1'')])]\<close>
    using returned [THEN conjunct1] by (simp add: added_def)
  have stays: \<open>map_of (socketInfo
         (onMessage demo_config demo_platform 1 ''{"type":"echo","messageId":"2"}'' alice_ready)) 1
       = Some ?a\<close>
    using thrown [THEN conjunct2, THEN conjunct2, THEN conjunct2, THEN conjunct2, THEN conjunct1]
    by simp
  show ?thesis
    using wf tracked parsed2 valid2 registered2 reply1 reply2 reply4 stays by simp
qed


section \<open>The backlog after the promotion\<close>

lemma no_pending_update:
  "no_pending sid entries \<Longrightarrow> (socketId i = sid \<longrightarrow> status i \<noteq> Pending) \<Longrightarrow>
     no_pending sid (AList.update w i entries)"
  by (induction entries) (auto simp: no_pending_def)

lemma no_pending_delete:
  "no_pending sid entries \<Longrightarrow> no_pending sid (AList.delete w entries)"
  by (induction entries) (auto simp: no_pending_def)

lemma update_replaces:
  "distinct (map fst entries) \<Longrightarrow> e \<in> set (AList.update w i entries) \<Longrightarrow>
     e = (w, i) \<or> (e \<in> set entries \<and> fst e \<noteq> w)"
  by (induction entries) (auto split: if_splits)

lemma no_pending_promoted:
  assumes "distinct (map fst entries)"
    and "\<forall>entry \<in> set entries. socketId (snd entry) = socketId info \<longrightarrow> fst entry = w"
  shows "no_pending (socketId info) (AList.update w (info\<lparr>status := Ready\<rparr>) entries)"
  unfolding no_pending_def list_all_iff
proof (intro ballI impI)
  fix e
  assume e: "e \<in> set (AList.update w (info\<lparr>status := Ready\<rparr>) entries)"
    and sid: "socketId (snd e) = socketId info"
  show "status (snd e) \<noteq> Pending"
    using update_replaces [OF assms(1) e] assms(2) sid by auto
qed

lemma run_script_backlog_eq:
  assumes "run_script cfg sc (emit e s) = (r, s')" and "wf_state s"
    and "no_pending sid (socketInfo s)"
  shows "messageBacklogs s' sid = messageBacklogs s sid" and "socketInfo s' = socketInfo s"
  using run_script_delivers [of "emit e s" cfg sc] assms
  by (simp_all add: delivers_def wf_no_closed)

lemma onClientMessage_backlog:
  assumes "wf_state s" and "no_pending sid (socketInfo s)"
  shows "messageBacklogs (onClientMessage cfg msg w info s) sid = messageBacklogs s sid"
  using assms
  by (auto simp: onClientMessage_def handler_failed_def
           split: option.split prod.split outcome.split dest: run_script_backlog_eq(1))

lemma onMessage_backlog:
  assumes wf: "wf_state s" and tracked: "map_of (socketInfo s) w = Some info"
    and quiet_id: "no_pending sid
            (socketInfo (if status info = Pending then promote w info s else s))"
  shows "messageBacklogs (onMessage cfg p w frame s) sid = messageBacklogs s sid"
proof -
  let ?s1 = "if status info = Pending then promote w info s else s"
  have wf1: "wf_state ?s1"
    using wf tracked by (simp add: wf_promote)
  have same: "messageBacklogs ?s1 sid = messageBacklogs s sid"
    by simp
  show ?thesis
  proof (cases "JSON_parse p frame")
    case None
    then show ?thesis
      using tracked by (simp add: onMessage_def Let_def)
  next
    case (Some asObject)
    show ?thesis
    proof (cases "clientMessageShape cfg asObject")
      case (Inl e)
      then show ?thesis
        using tracked Some by (simp add: onMessage_def Let_def)
    next
      case (Inr msg)
      then have "onMessage cfg p w frame s = onClientMessage cfg msg w info ?s1"
        using tracked Some by (simp add: onMessage_def Let_def)
      then show ?thesis
        using onClientMessage_backlog [OF wf1 quiet_id, of cfg msg w info] same by simp
    qed
  qed
qed

lemma onWebSocketCloseOrError_backlog:
  assumes "wf_state s" and "no_pending sid (socketInfo s)"
  shows "messageBacklogs (onWebSocketCloseOrError cfg w error s) sid = messageBacklogs s sid"
    and "no_pending sid (socketInfo (onWebSocketCloseOrError cfg w error s))"
  using assms
  by (auto simp: onWebSocketCloseOrError_def no_pending_delete
           split: option.split prod.split outcome.split
           dest: run_script_backlog_eq)

lemma fetch_backlog:
  assumes wf: "wf_state s" and quiet_id: "no_pending sid (socketInfo s)" and other: "uuid \<noteq> sid"
  shows "messageBacklogs (snd (fetch cfg p req uuid s)) sid = messageBacklogs s sid"
    and "no_pending sid (socketInfo (snd (fetch cfg p req uuid s)))"
proof -
  let ?n = "nextSocket s"
  let ?accepted = "\<lambda>i. updateSocketInfo (Suc ?n) i
                    (emit (AcceptWebSocket (Suc ?n)) (s\<lparr>nextSocket := Suc (Suc ?n)\<rparr>))"
  have accepted: "wf_state (?accepted i)" if "status i = Pending" for i
    using that wf by (intro wf_update) (simp_all add: wf_allocate)
  have np: "no_pending sid (socketInfo (?accepted i))" if "socketId i = uuid" for i
    using that quiet_id other by (simp add: no_pending_update)
  have hook: "messageBacklogs s' sid = messageBacklogs s sid \<and> no_pending sid (socketInfo s')"
    if "run_script cfg sc (emit e (?accepted i)) = (r, s')" "status i = Pending" "socketId i = uuid"
    for sc e i r s'
    using run_script_backlog_eq [OF that(1) accepted [OF that(2)] np [OF that(3)]] np [OF that(3)]
    by simp
  show "messageBacklogs (snd (fetch cfg p req uuid s)) sid = messageBacklogs s sid"
    by (auto simp: fetch_def Let_def
           split: option.split sum.split prod.split outcome.split dest!: hook)
  show "no_pending sid (socketInfo (snd (fetch cfg p req uuid s)))"
    using quiet_id np
    by (auto simp: fetch_def Let_def
           split: option.split sum.split prod.split outcome.split dest!: hook)
qed

lemma backlog_step:
  assumes wf: "wf_state s" and quiet_id: "no_pending sid (socketInfo s)" and ev: "keeps_id sid ev"
  shows "messageBacklogs (step cfg p ev s) sid = messageBacklogs s sid
       \<and> no_pending sid (socketInfo (step cfg p ev s))"
proof (cases ev)
  case (Fetch req uuid)
  then show ?thesis
    using fetch_backlog [OF wf quiet_id, of uuid cfg p req] ev by simp
next
  case (Send msg to notTo)
  then show ?thesis
    using send_delivers [OF wf_no_closed [OF wf], of cfg msg to notTo] quiet_id
    by (simp add: delivers_def)
next
  case (Message w frame)
  show ?thesis
  proof (cases "map_of (socketInfo s) w")
    case None
    then show ?thesis
      using Message quiet_id by (simp add: onMessage_def)
  next
    case (Some info)
    have np: "no_pending sid (socketInfo (if status info = Pending then promote w info s else s))"
      using quiet_id by (simp add: no_pending_update)
    have "socketInfo (onMessage cfg p w frame s)
            = socketInfo (if status info = Pending then promote w info s else s)"
      by (simp add: onMessage_registry [OF wf Some])
    then show ?thesis
      using Message onMessage_backlog [OF wf Some np] np by simp
  qed
next
  case (Close w code reason wasClean)
  then show ?thesis
    using onWebSocketCloseOrError_backlog [of "emit (WsClose w code ''Goodbye'') s" sid cfg w None]
      wf quiet_id
    by (simp add: onClose_def)
next
  case (SocketError w error)
  then show ?thesis
    using onWebSocketCloseOrError_backlog [of "emit (ConsoleError ''Websocket error'') s" sid cfg w]
      wf quiet_id
    by (simp add: onError_def)
next
  case (Wake sockets)
  then show ?thesis
    using ev by simp
qed

lemma backlog_run:
  assumes "wf_state s" and "no_pending sid (socketInfo s)" and "list_all (keeps_id sid) evs"
  shows "messageBacklogs (run cfg p evs s) sid = messageBacklogs s sid"
  using assms
proof (induction evs arbitrary: s)
  case Nil
  then show ?case by (simp add: run_def)
next
  case (Cons ev evs)
  have step: "messageBacklogs (step cfg p ev s) sid = messageBacklogs s sid"
    "no_pending sid (socketInfo (step cfg p ev s))"
    using backlog_step [OF Cons.prems(1,2), of ev cfg p] Cons.prems(3) by simp_all
  have "messageBacklogs (run cfg p evs (step cfg p ev s)) sid
          = messageBacklogs (step cfg p ev s) sid"
    using Cons.prems(3) by (intro Cons.IH wf_step Cons.prems(1) step(2)) simp
  then show ?case
    using step(1) by (simp add: run_def)
qed

text \<open>
  C6, as the code has it. The flush at the transition from \<open>pending\<close> to \<open>ready\<close> reads
  the backlog and leaves the entry of the map where it is: after the call the entry of
  the session's \<open>socketId\<close> holds the messages it held. Nothing is added to it
  afterwards: when no other session carries the \<open>socketId\<close>, the entry stays the same
  over every later sequence of operations in which no rehydration happens (a new
  instance starts with an empty map) and no handshake draws the same \<open>socketId\<close> again.
\<close>

theorem backlog_entry_survives_promotion:
  assumes wf: "wf_state s" and tracked: "map_of (socketInfo s) w = Some info"
    and pending: "status info = Pending"
    and unshared: "\<forall>entry \<in> set (socketInfo s).
                     socketId (snd entry) = socketId info \<longrightarrow> fst entry = w"
  shows "messageBacklogs (onMessage cfg p w frame s) (socketId info)
           = messageBacklogs s (socketId info)
       \<and> (\<forall>evs. list_all (keeps_id (socketId info)) evs \<longrightarrow>
            messageBacklogs (run cfg p evs (onMessage cfg p w frame s)) (socketId info)
              = messageBacklogs s (socketId info))"
proof -
  have keys: "distinct (map fst (socketInfo s))"
    using wf by (simp add: wf_state_def)
  have np: "no_pending (socketId info)
              (socketInfo (if status info = Pending then promote w info s else s))"
    using pending no_pending_promoted [OF keys unshared] by simp
  have kept: "messageBacklogs (onMessage cfg p w frame s) (socketId info)
           = messageBacklogs s (socketId info)"
    using onMessage_backlog [OF wf tracked np] .
  have "socketInfo (onMessage cfg p w frame s)
            = socketInfo (if status info = Pending then promote w info s else s)"
    by (simp add: onMessage_registry [OF wf tracked])
  then have np': "no_pending (socketId info) (socketInfo (onMessage cfg p w frame s))"
    using np by simp
  have "messageBacklogs (run cfg p evs (onMessage cfg p w frame s)) (socketId info)
              = messageBacklogs s (socketId info)"
    if "list_all (keeps_id (socketId info)) evs" for evs
    using backlog_run [OF wf_onMessage [OF wf] np' that] kept by simp
  then show ?thesis
    using kept by blast
qed

theorem backlog_entry_survives_promotion_witness:
  \<open>wf_state connected
   \<and> map_of (socketInfo connected) 1
       = Some \<lparr>audience = ''room-1'', subject = ''alice'', socketId = ''id-a'', status = Pending\<rparr>
   \<and> map (\<lambda>entry. (fst entry, socketId (snd entry))) (socketInfo connected)
       = [(1, ''id-a''), (3, ''id-b'')]
   \<and> messageBacklogs connected ''id-a'' = Some [ping, ping]
   \<and> messageBacklogs
        (onMessage demo_config demo_platform 1 ''{"type":"echo","messageId":"1"}'' connected)
        ''id-a'' = Some [ping, ping]
   \<and> list_all (keeps_id ''id-a'') [Send ping None None, Message 1 ''not json'']
   \<and> messageBacklogs
        (run demo_config demo_platform [Send ping None None, Message 1 ''not json'']
           (onMessage demo_config demo_platform 1 ''{"type":"echo","messageId":"1"}'' connected))
        ''id-a'' = Some [ping, ping]\<close>
proof -
  let ?a = "\<lparr>audience = ''room-1'', subject = ''alice'', socketId = ''id-a'', status = Pending\<rparr>"
  have wf: "wf_state connected"
    unfolding connected_def by (intro wf_run wf_initial)
  have tracked: "map_of (socketInfo connected) 1 = Some ?a"
    by (simp add: connected_registry)
  have pending: "status ?a = Pending"
    by simp
  have unshared: "\<forall>entry \<in> set (socketInfo connected).
                     socketId (snd entry) = socketId ?a \<longrightarrow> fst entry = 1"
    by (simp add: connected_registry)
  have later: "list_all (keeps_id ''id-a'') [Send ping None None, Message 1 ''not json'']"
    by simp
  note kept = backlog_entry_survives_promotion [OF wf tracked pending unshared,
      of demo_config demo_platform \<open>''{"type":"echo","messageId":"1"}''\<close>]
  show ?thesis
    using kept [THEN conjunct1]
      kept [THEN conjunct2, THEN spec, of "[Send ping None None, Message 1 ''not json'']"]
      wf tracked later
    by (simp add: connected_backlogs connected_registry)
qed

text \<open>
  C6 as the claim states it fails: after \<open>alice\<close>'s first frame her session is \<open>ready\<close>
  and the entry of her \<open>socketId\<close> is still in the map, with the two messages that were
  flushed.
\<close>

theorem backlog_entry_removed_counterexample:
  \<open>map_of (socketInfo connected) 1
     = Some \<lparr>audience = ''room-1'', subject = ''alice'', socketId = ''id-a'', status = Pending\<rparr>
   \<and> map_of (socketInfo
        (onMessage demo_config demo_platform 1 ''{"type":"echo","messageId":"1"}'' connected)) 1
     = Some \<lparr>audience = ''room-1'', subject = ''alice'', socketId = ''id-a'', status = Ready\<rparr>
   \<and> messageBacklogs
        (onMessage demo_config demo_platform 1 ''{"type":"echo","messageId":"1"}'' connected)
        ''id-a'' = Some [ping, ping]\<close>
  using alice_ready_registry alice_ready_backlogs(1)
  by (simp add: alice_ready_def run_def connected_registry)


section \<open>Close and error\<close>

lemma closeOrError_hook:
  assumes tracked: "map_of (socketInfo s) w = Some info"
    and hook: "disconnectHandler cfg = Some hook"
  shows "\<exists>rest. trace (onWebSocketCloseOrError cfg w error s)
                  = trace s @ CallDisconnect info w error # rest"
proof -
  obtain r s' where run: "run_script cfg (hook info w error) (emit (CallDisconnect info w error) s)
                            = (r, s')"
    by (cases "run_script cfg (hook info w error) (emit (CallDisconnect info w error) s)")
  obtain rest where "trace s' = trace s @ CallDisconnect info w error # rest"
    using run_script_extends [of cfg "hook info w error" "emit (CallDisconnect info w error) s"] run
    by auto
  then show ?thesis
    using tracked hook run by (cases r) (simp_all add: onWebSocketCloseOrError_def)
qed

lemma closeOrError_removes:
  assumes "\<forall>hook t. disconnectHandler cfg = Some hook \<longrightarrow>
             fst (run_script cfg (hook info w error) (emit (CallDisconnect info w error) s))
               \<noteq> Thrown t"
    and "map_of (socketInfo s) w = Some info"
  shows "map_of (socketInfo (onWebSocketCloseOrError cfg w error s)) w = None"
proof (cases "disconnectHandler cfg")
  case None
  then show ?thesis
    using assms(2) by (simp add: onWebSocketCloseOrError_def delete_conv')
next
  case (Some hook)
  obtain r s' where run: "run_script cfg (hook info w error) (emit (CallDisconnect info w error) s)
                            = (r, s')"
    by (cases "run_script cfg (hook info w error) (emit (CallDisconnect info w error) s)")
  then have "\<forall>t. r \<noteq> Thrown t"
    using assms(1) Some by auto
  then show ?thesis
    using assms(2) Some run by (cases r) (simp_all add: onWebSocketCloseOrError_def delete_conv')
qed

text \<open>
  The slip this leaves aside: a disconnect hook that throws synchronously ends
  \<open>#onWebSocketCloseOrError\<close> before its \<open>delete\<close>, and the session stays tracked.
\<close>

lemma closeOrError_hook_throws:
  assumes "wf_state s" and "map_of (socketInfo s) w = Some info"
    and "disconnectHandler cfg = Some hook"
    and "run_script cfg (hook info w error) (emit (CallDisconnect info w error) s) = (Thrown t, s')"
  shows "map_of (socketInfo (onWebSocketCloseOrError cfg w error s)) w = Some info"
  using assms run_script_registry_eq [OF assms(4,1)]
  by (simp add: onWebSocketCloseOrError_def)

text \<open>
  C9, as the code has it. A close event or a transport error on a tracked connection
  calls the disconnect hook, when one is configured, with the record as it is stored and
  with no error on a close, with the error on a transport error (\<open>Error("Unknown
  error")\<close> when the value is not an \<open>Error\<close>); the record is then removed from the
  registry, provided that call of the hook does not throw synchronously (or no hook is
  configured). The status of the record is not changed: the hook receives the stored
  status, which is \<open>pending\<close> or \<open>ready\<close>, and the attachments persisted on the
  connections stay as they were.
\<close>

theorem close_or_error_notifies_and_removes:
  assumes tracked: "map_of (socketInfo s) w = Some info"
  shows "(\<forall>hook. disconnectHandler cfg = Some hook \<longrightarrow>
            (\<exists>rest. added s (onClose cfg w code reason wasClean s)
                      = WsClose w code ''Goodbye'' # CallDisconnect info w None # rest) \<and>
            (\<exists>rest. added s (onError cfg w error s)
                      = ConsoleError ''Websocket error''
                        # CallDisconnect info w
                            (Some (case error of Err e \<Rightarrow> e | NonError \<Rightarrow> Error ''Unknown error''))
                        # rest))
       \<and> ((\<forall>hook t. disconnectHandler cfg = Some hook \<longrightarrow>
              fst (run_script cfg (hook info w None)
                     (emit (CallDisconnect info w None) (emit (WsClose w code ''Goodbye'') s)))
                \<noteq> Thrown t) \<longrightarrow>
            map_of (socketInfo (onClose cfg w code reason wasClean s)) w = None)
       \<and> ((\<forall>hook t. disconnectHandler cfg = Some hook \<longrightarrow>
              fst (run_script cfg
                     (hook info w (Some (case error of Err e \<Rightarrow> e
                                         | NonError \<Rightarrow> Error ''Unknown error'')))
                     (emit (CallDisconnect info w
                              (Some (case error of Err e \<Rightarrow> e
                                     | NonError \<Rightarrow> Error ''Unknown error'')))
                        (emit (ConsoleError ''Websocket error'') s)))
                \<noteq> Thrown t) \<longrightarrow>
            map_of (socketInfo (onError cfg w error s)) w = None)
       \<and> (disconnectHandler cfg = None \<longrightarrow>
            map_of (socketInfo (onClose cfg w code reason wasClean s)) w = None \<and>
            map_of (socketInfo (onError cfg w error s)) w = None)
       \<and> attachments (onClose cfg w code reason wasClean s) = attachments s
       \<and> attachments (onError cfg w error s) = attachments s
       \<and> (wf_state s \<longrightarrow> status info \<noteq> Closed \<and> map_of (attachments s) w = Some info)"
proof (intro conjI allI impI)
  fix hook
  assume hook: "disconnectHandler cfg = Some hook"
  have t: "map_of (socketInfo (emit e s)) w = Some info" for e
    using tracked by simp
  obtain rest where "trace (onClose cfg w code reason wasClean s)
      = trace s @ WsClose w code ''Goodbye'' # CallDisconnect info w None # rest"
    using closeOrError_hook [OF t [of "WsClose w code ''Goodbye''"] hook, of None]
    by (auto simp: onClose_def)
  then show "\<exists>rest. added s (onClose cfg w code reason wasClean s)
                      = WsClose w code ''Goodbye'' # CallDisconnect info w None # rest"
    using added_append by blast
  let ?e = "Some (case error of Err e \<Rightarrow> e | NonError \<Rightarrow> Error ''Unknown error'')"
  obtain rest where "trace (onError cfg w error s)
      = trace s @ ConsoleError ''Websocket error'' # CallDisconnect info w ?e # rest"
    using closeOrError_hook [OF t [of "ConsoleError ''Websocket error''"] hook, of ?e]
    by (auto simp: onError_def)
  then show "\<exists>rest. added s (onError cfg w error s)
                      = ConsoleError ''Websocket error'' # CallDisconnect info w ?e # rest"
    using added_append by blast
next
  have t: "map_of (socketInfo (emit e s)) w = Some info" for e
    using tracked by simp
  assume "\<forall>hook t. disconnectHandler cfg = Some hook \<longrightarrow>
              fst (run_script cfg (hook info w None)
                     (emit (CallDisconnect info w None) (emit (WsClose w code ''Goodbye'') s)))
                \<noteq> Thrown t"
  then show "map_of (socketInfo (onClose cfg w code reason wasClean s)) w = None"
    unfolding onClose_def by (rule closeOrError_removes [OF _ t])
next
  have t: "map_of (socketInfo (emit e s)) w = Some info" for e
    using tracked by simp
  assume "\<forall>hook t. disconnectHandler cfg = Some hook \<longrightarrow>
              fst (run_script cfg
                     (hook info w (Some (case error of Err e \<Rightarrow> e
                                         | NonError \<Rightarrow> Error ''Unknown error'')))
                     (emit (CallDisconnect info w
                              (Some (case error of Err e \<Rightarrow> e
                                     | NonError \<Rightarrow> Error ''Unknown error'')))
                        (emit (ConsoleError ''Websocket error'') s)))
                \<noteq> Thrown t"
  then show "map_of (socketInfo (onError cfg w error s)) w = None"
    unfolding onError_def by (rule closeOrError_removes [OF _ t])
next
  have t: "map_of (socketInfo (emit e s)) w = Some info" for e
    using tracked by simp
  assume none: "disconnectHandler cfg = None"
  show "map_of (socketInfo (onClose cfg w code reason wasClean s)) w = None"
    unfolding onClose_def using none by (intro closeOrError_removes [OF _ t]) simp
  show "map_of (socketInfo (onError cfg w error s)) w = None"
    unfolding onError_def using none by (intro closeOrError_removes [OF _ t]) simp
next
  show "attachments (onClose cfg w code reason wasClean s) = attachments s"
    by (simp add: onClose_def)
  show "attachments (onError cfg w error s) = attachments s"
    by (simp add: onError_def)
next
  assume wf: "wf_state s"
  show "status info \<noteq> Closed"
    using wf_tracked(2) [OF wf tracked] .
  show "map_of (attachments s) w = Some info"
    using wf_tracked(1) [OF wf tracked] .
qed

theorem close_or_error_notifies_and_removes_witness:
  "map_of (socketInfo alice_ready) 1
     = Some \<lparr>audience = ''room-1'', subject = ''alice'', socketId = ''id-a'', status = Ready\<rparr>
   \<and> disconnectHandler demo_config \<noteq> None
   \<and> added alice_ready (onError demo_config 1 NonError alice_ready)
       = [ConsoleError ''Websocket error'',
          CallDisconnect
            \<lparr>audience = ''room-1'', subject = ''alice'', socketId = ''id-a'', status = Ready\<rparr> 1
            (Some (Error ''Unknown error''))]
   \<and> map_of (socketInfo (onClose demo_config 1 1000 ''bye'' True alice_ready)) 1 = None
   \<and> map_of (socketInfo (onError demo_config 1 NonError alice_ready)) 1 = None
   \<and> map_of (attachments (onClose demo_config 1 1000 ''bye'' True alice_ready)) 1
       = Some \<lparr>audience = ''room-1'', subject = ''alice'', socketId = ''id-a'', status = Ready\<rparr>
   \<and> map_of (socketInfo
         (onClose
            (demo_config\<lparr>disconnectHandler :=
               Some (\<lambda>info w error. case error of None \<Rightarrow> Return
                                        | Some e \<Rightarrow> Throw (Err e))\<rparr>)
            1 1000 ''bye'' True alice_ready)) 1 = None
   \<and> map_of (socketInfo
         (onClose (demo_config\<lparr>disconnectHandler := None\<rparr>) 1 1000 ''bye'' True alice_ready)) 1
       = None"
proof -
  let ?a = "\<lparr>audience = ''room-1'', subject = ''alice'', socketId = ''id-a'', status = Ready\<rparr>"
  let ?picky = "demo_config\<lparr>disconnectHandler :=
               Some (\<lambda>info w error. case error of None \<Rightarrow> Return
                                        | Some e \<Rightarrow> Throw (Err e))\<rparr>"
  let ?bare = "demo_config\<lparr>disconnectHandler := None\<rparr>"
  have tracked: "map_of (socketInfo alice_ready) 1 = Some ?a"
    by (simp add: alice_ready_registry)
  have wf: "wf_state alice_ready"
    unfolding alice_ready_def connected_def by (intro wf_run wf_initial)
  note c = close_or_error_notifies_and_removes
    [OF tracked, where cfg = "demo_config" and code = 1000 and reason = "''bye''" and wasClean = True
       and error = NonError]
  note picky = close_or_error_notifies_and_removes
    [OF tracked, where cfg = "?picky" and code = 1000 and reason = "''bye''" and wasClean = True
       and error = NonError]
  note bare = close_or_error_notifies_and_removes
    [OF tracked, where cfg = "?bare" and code = 1000 and reason = "''bye''" and wasClean = True
       and error = NonError]
  have closed: "map_of (socketInfo (onClose demo_config 1 1000 ''bye'' True alice_ready)) 1 = None"
    using c [THEN conjunct2, THEN conjunct1] by (simp add: demo_config_def)
  have failed: "map_of (socketInfo (onError demo_config 1 NonError alice_ready)) 1 = None"
    using c [THEN conjunct2, THEN conjunct2, THEN conjunct1] by (simp add: demo_config_def)
  have closed_picky: "map_of (socketInfo (onClose ?picky 1 1000 ''bye'' True alice_ready)) 1 = None"
    using picky [THEN conjunct2, THEN conjunct1] by simp
  have closed_bare: "map_of (socketInfo (onClose ?bare 1 1000 ''bye'' True alice_ready)) 1 = None"
    using bare [THEN conjunct2, THEN conjunct2, THEN conjunct2, THEN conjunct1] by simp
  have kept: "map_of (attachments (onClose demo_config 1 1000 ''bye'' True alice_ready)) 1 = Some ?a"
    using c [THEN conjunct2, THEN conjunct2, THEN conjunct2, THEN conjunct2, THEN conjunct1]
      c [THEN conjunct2, THEN conjunct2, THEN conjunct2, THEN conjunct2, THEN conjunct2,
         THEN conjunct2] wf
    by simp
  have notified: "added alice_ready (onError demo_config 1 NonError alice_ready)
       = [ConsoleError ''Websocket error'', CallDisconnect ?a 1 (Some (Error ''Unknown error''))]"
    using tracked
    by (simp add: added_def onError_def onWebSocketCloseOrError_def demo_config_def)
  have hook: "disconnectHandler demo_config \<noteq> None"
    by (simp add: demo_config_def)
  show ?thesis
    using tracked hook notified closed failed kept closed_picky closed_bare
    by (simp only: simp_thms)
qed

text \<open>
  C9 as the claim states it fails: when \<open>alice\<close>'s connection closes while her session is
  \<open>pending\<close>, the hook is called with status \<open>pending\<close>, the record leaves the registry
  and the attachment keeps status \<open>pending\<close>; nothing has status \<open>closed\<close>.
\<close>

theorem close_does_not_write_closed_counterexample:
  "map_of (socketInfo connected) 1
     = Some \<lparr>audience = ''room-1'', subject = ''alice'', socketId = ''id-a'', status = Pending\<rparr>
   \<and> added connected (onClose demo_config 1 1000 ''bye'' True connected)
       = [WsClose 1 1000 ''Goodbye'',
          CallDisconnect
            \<lparr>audience = ''room-1'', subject = ''alice'', socketId = ''id-a'', status = Pending\<rparr>
            1 None]
   \<and> map_of (socketInfo (onClose demo_config 1 1000 ''bye'' True connected)) 1 = None
   \<and> map_of (attachments (onClose demo_config 1 1000 ''bye'' True connected)) 1
       = Some \<lparr>audience = ''room-1'', subject = ''alice'', socketId = ''id-a'', status = Pending\<rparr>
   \<and> no_closed (socketInfo (onClose demo_config 1 1000 ''bye'' True connected))
   \<and> no_closed (attachments (onClose demo_config 1 1000 ''bye'' True connected))"
  by (simp add: added_def onClose_def onWebSocketCloseOrError_def demo_config_def
      connected_registry connected_platform no_closed_def)


end
